theory Spec2Isabelle
  imports Main
begin

section \<open>Morse playback: \<open>playMorse\<close> and \<open>finishSoundQueue\<close> of feed.js\<close>

text \<open>
  The module keeps two globals for sound: \<open>soundQueue\<close>, the ids of the timers created for
  gain changes, and \<open>soundTimeout\<close>, the running time offset in milliseconds. The browser's
  \<open>setTimeout\<close> is modelled by a table of the calls made so far: each entry is the callback
  with its arguments and the delay it was given, and the id returned is the entry's index.
\<close>

datatype timer_call =
    SetGain nat
  | FinishSoundQueue nat string bool

record sound =
  soundQueue :: "nat list"
  soundTimeout :: nat
  timers :: "(timer_call \<times> nat) list"
  gain :: nat
  soundMessages :: "string list"

definition dot :: char where
  "dot = CHR ''.''"

definition dash :: char where
  "dash = CHR ''-''"

definition morseSeparator :: char where
  "morseSeparator = CHR ''#''"

definition setTimeout :: "timer_call \<Rightarrow> nat \<Rightarrow> sound \<Rightarrow> nat \<times> sound" where
  "setTimeout f delay s = (length (timers s), s\<lparr>timers := timers s @ [(f, delay)]\<rparr>)"

text \<open>The if-chain of the loop body: the pair is (\<open>duration\<close>, \<open>shouldPlay\<close>).\<close>

definition morseSymbol :: "char \<Rightarrow> nat \<times> bool" where
  "morseSymbol code =
     (if dot = code then (50, True)
      else if dash = code then (150, True)
      else if morseSeparator = code then (200, False)
      else (75, False))"

text \<open>The \<open>for\<close> loop over the characters of \<open>morseCode\<close>, left to right.\<close>

fun playLoop :: "string \<Rightarrow> sound \<Rightarrow> sound" where
  "playLoop [] s = s"
| "playLoop (code # rest) s =
     (let (duration, shouldPlay) = morseSymbol code;
          s1 = (if shouldPlay then
                  (let (id1, sa) = setTimeout (SetGain 1) (soundTimeout s) s;
                       sb = sa\<lparr>soundQueue := soundQueue sa @ [id1]\<rparr>;
                       (id2, sc) = setTimeout (SetGain 0) (soundTimeout s + duration) sb
                   in sc\<lparr>soundQueue := soundQueue sc @ [id2]\<rparr>)
                else s)
      in playLoop rest (s1\<lparr>soundTimeout := soundTimeout s1 + duration\<rparr>))"

definition playMorse :: "string \<Rightarrow> bool \<Rightarrow> sound \<Rightarrow> sound" where
  "playMorse morseCode silent s =
     (let s0 = (if length (soundQueue s) = 0 then s\<lparr>soundTimeout := 0\<rparr> else s);
          s1 = playLoop morseCode s0
      in snd (setTimeout (FinishSoundQueue (2 * length morseCode) morseCode silent)
                (soundTimeout s1) s1))"

text \<open>
  \<open>finishSoundQueue\<close> closes over \<open>morseCode\<close> and \<open>silent\<close>; \<open>splice(0, timeouts)\<close> removes
  the first \<open>timeouts\<close> entries of the queue, or all of them when there are fewer.
\<close>

definition finishSoundQueue :: "string \<Rightarrow> bool \<Rightarrow> nat \<Rightarrow> sound \<Rightarrow> sound" where
  "finishSoundQueue morseCode silent timeouts s =
     (let cleanMorse = filter (\<lambda>c. c \<noteq> CHR ''#'') morseCode;
          s1 = s\<lparr>soundQueue := drop timeouts (soundQueue s)\<rparr>
      in if \<not> silent
         then s1\<lparr>soundMessages := soundMessages s1 @ [''Morse code message received: '' @ cleanMorse]\<rparr>
         else s1)"

text \<open>What a timer does when it fires.\<close>

fun runTimer :: "timer_call \<Rightarrow> sound \<Rightarrow> sound" where
  "runTimer (SetGain v) s = s\<lparr>gain := v\<rparr>"
| "runTimer (FinishSoundQueue timeouts morseCode silent) s =
     finishSoundQueue morseCode silent timeouts s"

definition emptySound :: sound where
  "emptySound = \<lparr>soundQueue = [], soundTimeout = 0, timers = [], gain = 0, soundMessages = []\<rparr>"

subsection \<open>The schedule as the specification words it\<close>

text \<open>
  The encoding alphabet of the specification: a dot lasts 50ms, a dash 150ms, the separator
  is a gap of 200ms and any other character a gap of 75ms; only dots and dashes are pulses.
\<close>

definition spec_duration :: "char \<Rightarrow> nat" where
  "spec_duration c =
     (if c = CHR ''.'' then 50 else if c = CHR ''-'' then 150
      else if c = CHR ''#'' then 200 else 75)"

definition is_pulse :: "char \<Rightarrow> bool" where
  "is_pulse c = (c = CHR ''.'' \<or> c = CHR ''-'')"





section \<open>The terminal: command queue, multi-step command, history\<close>

text \<open>
  An entry of \<open>commandQueue\<close>. The command is a name or, for a chat message, the function of
  a registered command; \<open>commandMsg\<close> is absent when \<open>printUsedCommand\<close> gave \<open>null\<close> or no
  third argument was passed.
\<close>

datatype cmd_ref = CmdName string | CmdFunc string

record storedCommand =
  command :: cmd_ref
  data :: "string list"
  commandMsg :: "string list option"

text \<open>
  The module's globals and the state of its collaborators that the handlers read and write:
  the command helper of \<open>commandHandler\<close>, the storage, the input field, the messenger.
  Calls into collaborators whose code is elsewhere are recorded: \<open>triggered\<close> holds the
  \<open>triggerCommand\<close> calls with the time of the call, \<open>stepCalls\<close> the calls of the active
  command's step handler, \<open>abortCalls\<close> the \<open>abortCommand\<close> calls. Time is a virtual clock in
  milliseconds; \<open>pendingTimers\<close> holds the times at which \<open>consumeCommandQueue\<close> is due.
\<close>

record feed =
  commandQueue :: "storedCommand list"
  commmandUsed :: bool
  clock :: nat
  pendingTimers :: "nat list"
  triggered :: "(nat \<times> cmd_ref \<times> string list option) list"
  messages :: "string list list"
  helper_command :: "string option"
  onStep :: nat
  fallbackStep :: nat
  keysBlocked :: bool
  hideInput :: bool
  stepCalls :: "(string option \<times> nat \<times> string list) list"
  abortCalls :: "string list"
  commandHistory :: "string list"
  previousCommandPointer :: int
  keyPressed :: bool
  ctrlPressed :: bool
  inputText :: string
  inputStart :: string
  modeText :: string
  user :: "string option"
  mode :: string
  userAccessLevel :: nat
  disableCommands :: bool

definition commandTime :: nat where
  "commandTime = 1000"

definition queueCommand :: "cmd_ref \<Rightarrow> string list \<Rightarrow> string list option \<Rightarrow> feed \<Rightarrow> feed" where
  "queueCommand c d m s =
     s\<lparr>commandQueue := commandQueue s @ [\<lparr>command = c, data = d, commandMsg = m\<rparr>]\<rparr>"

definition queueMessage :: "string list \<Rightarrow> feed \<Rightarrow> feed" where
  "queueMessage m s = s\<lparr>messages := messages s @ [m]\<rparr>"

definition setCommandUsed :: "bool \<Rightarrow> feed \<Rightarrow> feed" where
  "setCommandUsed used s = s\<lparr>commmandUsed := used\<rparr>"

definition triggerCommand :: "cmd_ref \<Rightarrow> string list option \<Rightarrow> feed \<Rightarrow> feed" where
  "triggerCommand c ps s = s\<lparr>triggered := triggered s @ [(clock s, c, ps)]\<rparr>"

definition consumeCommandQueue :: "feed \<Rightarrow> feed" where
  "consumeCommandQueue s =
     (case commandQueue s of
        sc # rest \<Rightarrow>
          (let s1 = s\<lparr>commandQueue := rest\<rparr>;
               s2 = (case commandMsg sc of Some m \<Rightarrow> queueMessage m s1 | None \<Rightarrow> s1);
               s3 = setCommandUsed True s2;
               s4 = triggerCommand (command sc) (Some (data sc)) s3
           in s4\<lparr>pendingTimers := pendingTimers s4 @ [clock s4 + commandTime]\<rparr>)
      | [] \<Rightarrow> setCommandUsed False s)"

definition startCommandQueue :: "feed \<Rightarrow> feed" where
  "startCommandQueue s = (if \<not> commmandUsed s then consumeCommandQueue s else s)"

text \<open>
  The next timer fires: the clock moves to its time and \<open>consumeCommandQueue\<close> runs. All
  timers have the same delay, so the oldest pending one is the earliest.
\<close>

definition fireTimer :: "feed \<Rightarrow> feed" where
  "fireTimer s =
     (case pendingTimers s of
        [] \<Rightarrow> s
      | t # ts \<Rightarrow> consumeCommandQueue (s\<lparr>clock := max (clock s) t, pendingTimers := ts\<rparr>))"

function drain :: "feed \<Rightarrow> feed" where
  "drain s = (if pendingTimers s = [] then s else drain (fireTimer s))"
  by pat_completeness auto
termination
  by (relation "measure (\<lambda>s. 2 * length (commandQueue s) + length (pendingTimers s))")
     (auto simp: fireTimer_def consumeCommandQueue_def setCommandUsed_def triggerCommand_def
        queueMessage_def Let_def split: list.splits option.splits)

text \<open>The calls a sequence of submissions makes, one \<open>queueCommand\<close> each.\<close>

definition enqueueAll :: "storedCommand list \<Rightarrow> feed \<Rightarrow> feed" where
  "enqueueAll xs s = fold (\<lambda>x. queueCommand (command x) (data x) (commandMsg x)) xs s"

text \<open>The times at which a queue drained from time \<open>t\<close> on is expected to run its entries.\<close>

definition timed :: "nat \<Rightarrow> storedCommand list \<Rightarrow> (nat \<times> cmd_ref \<times> string list option) list" where
  "timed t q = map (\<lambda>i. (t + i * commandTime, command (q ! i), Some (data (q ! i)))) [0..<length q]"

subsection \<open>The multi-step command\<close>

text \<open>
  Modelled from the spec: \<open>commandHandler.resetCommand\<close>, whose code is not in this module.
  The specification says that a reset clears the session to none, the state with no active
  command.
\<close>

definition resetCommand :: "bool \<Rightarrow> feed \<Rightarrow> feed" where
  "resetCommand aborted s = s\<lparr>helper_command := None\<rparr>"

text \<open>
  Modelled from the spec: \<open>commandHandler.triggerCommandStep\<close>, whose code is not in this
  module. The specification says that the arguments are passed to the active command's step
  handler together with the current step; the call is recorded.
\<close>

definition triggerCommandStep :: "string list \<Rightarrow> feed \<Rightarrow> feed" where
  "triggerCommandStep ps s = s\<lparr>stepCalls := stepCalls s @ [(helper_command s, onStep s, ps)]\<rparr>"

text \<open>
  Modelled from the spec: \<open>commandHandler.abortCommand\<close>, whose code is not in this module:
  the abort handler of the named command is called; the call is recorded.
\<close>

definition abortCommand :: "string \<Rightarrow> feed \<Rightarrow> feed" where
  "abortCommand c s = s\<lparr>abortCalls := abortCalls s @ [c]\<rparr>"

text \<open>The parameters of a \<open>commandSuccess\<close> event; an absent flag is false.\<close>

record successParams =
  noStepCall :: bool
  freezeStep :: bool
  newData :: "string list"

definition onCommandSuccess :: "successParams \<Rightarrow> feed \<Rightarrow> feed" where
  "onCommandSuccess params s =
     (if \<not> noStepCall params then
        (let s1 = (if \<not> freezeStep params then s\<lparr>onStep := onStep s + 1\<rparr> else s)
         in triggerCommandStep (newData params) s1)
      else resetCommand False s)"

definition onCommandFail :: "feed \<Rightarrow> feed" where
  "onCommandFail s =
     (case helper_command s of
        Some c \<Rightarrow> resetCommand True (abortCommand c s)
      | None \<Rightarrow> s)"

definition onCommandStep :: "string list \<Rightarrow> feed \<Rightarrow> feed" where
  "onCommandStep cmdParams s = triggerCommandStep cmdParams (s\<lparr>onStep := fallbackStep s\<rparr>)"

declare drain.simps [simp del]

text \<open>A state at rest, with a registered user in command mode.\<close>

definition initialFeed :: feed where
  "initialFeed =
     \<lparr>commandQueue = [], commmandUsed = False, clock = 0, pendingTimers = [], triggered = [],
      messages = [], helper_command = None, onStep = 0, fallbackStep = 0, keysBlocked = False,
      hideInput = False, stepCalls = [], abortCalls = [], commandHistory = [],
      previousCommandPointer = 0, keyPressed = False, ctrlPressed = False, inputText = [],
      inputStart = ''public'', modeText = [], user = Some ''bob'', mode = ''cmd'',
      userAccessLevel = 1, disableCommands = False\<rparr>"

section \<open>Submitting a line: \<open>enterKeyHandler\<close>\<close>

text \<open>
  What the handlers take from collaborators whose code is not in this module, as
  parameters: \<open>textTools.trimSpace\<close>, JavaScript's \<open>toLowerCase\<close>, the registry lookup
  \<open>commandHandler.getCommand\<close>, the aliases of the storage, the command characters, the
  label texts, the command list and the access data that autocompletion reads, and
  \<open>domManipulator.replaceLastInputPhrase\<close> as a function of the new phrase and the current
  input. An access level that is not a number is \<open>None\<close>.
\<close>

record commandDef =
  commandName :: string
  accessLevel :: "nat option"
  clearBeforeUse :: bool
  clearAfterUse :: bool

record env =
  trimSpace :: "string \<Rightarrow> string"
  toLowerCase :: "string \<Rightarrow> string"
  getCommand :: "string \<Rightarrow> commandDef option"
  aliases :: "string \<Rightarrow> string list option"
  commandChars :: "string list"
  isCommandChar :: "string \<Rightarrow> bool"
  commandFail :: string
  mustRegister :: "string list"
  allCommands :: "string list"
  getCommandAccessLevel :: "string \<Rightarrow> nat option"
  getCommandVisibility :: "string \<Rightarrow> nat option"
  replaceLastInputPhrase :: "string \<Rightarrow> string \<Rightarrow> string"

datatype error = TypeError

text \<open>\<open>text.split(' ')\<close>: the pieces between single spaces; never empty.\<close>

fun split_space :: "string \<Rightarrow> string list" where
  "split_space [] = [[]]"
| "split_space (c # cs) =
     (if c = CHR '' '' then [] # split_space cs
      else (case split_space cs of p # ps \<Rightarrow> (c # p) # ps | [] \<Rightarrow> [[c]]))"

text \<open>\<open>array.join(sep)\<close>.\<close>

fun join :: "string \<Rightarrow> string list \<Rightarrow> string" where
  "join sep [] = []"
| "join sep [x] = x"
| "join sep (x # y # ys) = x @ sep @ join sep (y # ys)"

text \<open>\<open>string.charAt(i)\<close>: the character as a string, the empty string out of range.\<close>

definition charAt :: "string \<Rightarrow> nat \<Rightarrow> string" where
  "charAt str i = (if i < length str then [str ! i] else [])"

text \<open>\<open>phrases[0]\<close> of a split line, which always has a first piece.\<close>

definition firstPhrase :: "string list \<Rightarrow> string" where
  "firstPhrase phrases = (case phrases of [] \<Rightarrow> [] | p # _ \<Rightarrow> p)"

definition pushCommandHistory :: "string \<Rightarrow> feed \<Rightarrow> feed" where
  "pushCommandHistory c s = s\<lparr>commandHistory := commandHistory s @ [c]\<rparr>"

definition resetPreviousCommandPointer :: "feed \<Rightarrow> feed" where
  "resetPreviousCommandPointer s = s\<lparr>previousCommandPointer := int (length (commandHistory s))\<rparr>"

definition clearInput :: "feed \<Rightarrow> feed" where
  "clearInput s = s\<lparr>inputText := []\<rparr>"

definition clearModeText :: "feed \<Rightarrow> feed" where
  "clearModeText s = s\<lparr>modeText := []\<rparr>"

definition setCommandInput :: "string \<Rightarrow> feed \<Rightarrow> feed" where
  "setCommandInput t s = s\<lparr>inputText := t\<rparr>"

definition combineSequences :: "env \<Rightarrow> string \<Rightarrow> string list \<Rightarrow> string list" where
  "combineSequences e name phrases =
     (case aliases e name of Some a \<Rightarrow> a @ drop 1 phrases | None \<Rightarrow> drop 1 phrases)"

definition printUsedCommand :: "bool \<Rightarrow> string \<Rightarrow> feed \<Rightarrow> string list option" where
  "printUsedCommand clearAfter txt s =
     (if clearAfter then None else Some [inputStart s @ modeText s @ ''$ '' @ txt])"

text \<open>The access test of the first branch: the level is not a number, or the user has it.\<close>

definition hasAccess :: "nat option \<Rightarrow> feed \<Rightarrow> bool" where
  "hasAccess level s = (case level of None \<Rightarrow> True | Some l \<Rightarrow> l \<le> userAccessLevel s)"

text \<open>The branch of \<open>enterKeyHandler\<close> taken when no command is active.\<close>

definition enterTopLevel :: "env \<Rightarrow> string \<Rightarrow> feed \<Rightarrow> error + feed" where
  "enterTopLevel e txt s =
     (let phrases = split_space (trimSpace e txt) in
      if length (firstPhrase phrases) > 0 then
        (let cmd = getCommand e (toLowerCase e (firstPhrase phrases)) in
         if \<not> disableCommands s \<and> (case cmd of None \<Rightarrow> False | Some c \<Rightarrow> hasAccess (accessLevel c) s)
         then
           (case cmd of
              None \<Rightarrow> Inr s
            | Some c \<Rightarrow>
                (let s1 = pushCommandHistory (join '' '' phrases) s;
                     s2 = (if clearBeforeUse c then triggerCommand (CmdName ''clear'') None s1 else s1);
                     s3 = queueCommand (CmdName (commandName c))
                            (combineSequences e (commandName c) phrases)
                            (printUsedCommand (clearAfterUse c) txt s2) s2
                 in Inr (startCommandQueue s3)))
         else if user s \<noteq> None \<and> mode s = ''chat'' \<and> length (firstPhrase phrases) > 0 then
           (if charAt (firstPhrase phrases) 0 \<notin> set (commandChars e) then
              (case getCommand e ''msg'' of
                 None \<Rightarrow> Inl TypeError
               | Some m \<Rightarrow> Inr (startCommandQueue (queueCommand (CmdFunc ''msg'') phrases None s)))
            else Inr (queueMessage [firstPhrase phrases @ '': '' @ commandFail e] s))
         else if user s = None then
           Inr (queueMessage (mustRegister e) (queueMessage [join '','' phrases] s))
         else
           Inr (queueMessage [''- '' @ firstPhrase phrases @ '': '' @ commandFail e]
                  (pushCommandHistory (join '' '' phrases) s)))
      else
        (case printUsedCommand False '' '' s of
           Some m \<Rightarrow> Inr (queueMessage m s)
         | None \<Rightarrow> Inr s))"

text \<open>The branch taken when a multi-step command is active.\<close>

definition enterActive :: "env \<Rightarrow> string \<Rightarrow> string \<Rightarrow> feed \<Rightarrow> feed" where
  "enterActive e active txt s =
     (let phrases = split_space (trimSpace e txt) in
      if firstPhrase phrases = ''exit'' \<or> firstPhrase phrases = ''abort'' then
        resetCommand True (abortCommand active s)
      else
        triggerCommandStep phrases (if \<not> hideInput s then queueMessage [txt] s else s))"

definition enterKeyHandler :: "env \<Rightarrow> feed \<Rightarrow> error + feed" where
  "enterKeyHandler e s =
     (let txt = inputText s;
          s0 = s\<lparr>keyPressed := True\<rparr>;
          r = (if \<not> keysBlocked s0 then
                 (case helper_command s0 of
                    Some active \<Rightarrow> Inr (enterActive e active txt s0)
                  | None \<Rightarrow> enterTopLevel e txt s0)
               else Inr s0)
      in case r of
           Inl err \<Rightarrow> Inl err
         | Inr s1 \<Rightarrow> Inr (clearModeText (clearInput (resetPreviousCommandPointer s1))))"

section \<open>History navigation: the arrow keys of \<open>specialKeyPress\<close>\<close>

text \<open>
  \<open>commandHistory[i]\<close>: \<open>None\<close> stands for \<open>undefined\<close>, read outside the log. The arms give
  no state then, since what the input field does with \<open>undefined\<close> is not this module's.
\<close>

definition historyEntry :: "string list \<Rightarrow> int \<Rightarrow> string option" where
  "historyEntry h i = (if 0 \<le> i \<and> i < int (length h) then Some (h ! nat i) else None)"

text \<open>\<open>case 38\<close>, the up arrow, behind the \<open>keyPressed\<close> guard. Scrolling is not modelled.\<close>

definition specialKeyPress_up :: "feed \<Rightarrow> feed option" where
  "specialKeyPress_up s =
     (if \<not> keyPressed s then
        (let s1 = s\<lparr>keyPressed := True\<rparr> in
         if ctrlPressed s1 then Some s1
         else if \<not> keysBlocked s1 \<and> helper_command s1 = None \<and> previousCommandPointer s1 > 0
         then
           (let s2 = clearInput s1;
                s3 = s2\<lparr>previousCommandPointer := previousCommandPointer s2 - 1\<rparr>
            in map_option (\<lambda>t. setCommandInput t s3)
                 (historyEntry (commandHistory s3) (previousCommandPointer s3)))
         else Some s1)
      else Some s)"

text \<open>\<open>case 40\<close>, the down arrow.\<close>

definition specialKeyPress_down :: "feed \<Rightarrow> feed option" where
  "specialKeyPress_down s =
     (if \<not> keyPressed s then
        (let s1 = s\<lparr>keyPressed := True\<rparr> in
         if ctrlPressed s1 then Some s1
         else if \<not> keysBlocked s1 \<and> helper_command s1 = None then
           (if previousCommandPointer s1 < int (length (commandHistory s1)) - 1 then
              (let s2 = clearInput s1;
                   s3 = s2\<lparr>previousCommandPointer := previousCommandPointer s2 + 1\<rparr>
               in map_option (\<lambda>t. setCommandInput t s3)
                    (historyEntry (commandHistory s3) (previousCommandPointer s3)))
            else if previousCommandPointer s1 = int (length (commandHistory s1)) - 1 then
              (let s2 = clearInput s1
               in Some (s2\<lparr>previousCommandPointer := previousCommandPointer s2 + 1\<rparr>))
            else Some (clearInput s1))
         else Some s1)
      else Some s)"

text \<open>
  \<open>keyReleased\<close> for an arrow key, the \<open>default\<close> arm of its switch: the key is no longer
  held. The Android branch and the mode text are not modelled.
\<close>

definition keyReleased_arrow :: "feed \<Rightarrow> feed" where
  "keyReleased_arrow s = s\<lparr>keyPressed := False\<rparr>"

text \<open>A press of the up or down arrow followed by its release.\<close>

definition moveUp :: "feed \<Rightarrow> feed option" where
  "moveUp s = map_option keyReleased_arrow (specialKeyPress_up s)"

definition moveDown :: "feed \<Rightarrow> feed option" where
  "moveDown s = map_option keyReleased_arrow (specialKeyPress_down s)"

section \<open>Autocompletion\<close>

text \<open>
  The inner loop of \<open>match\<close> over the characters of \<open>partial\<close>: \<open>matches\<close> becomes true on
  an equal character and false, ending the loop, on the first unequal one. The flag is
  declared outside the loop over the items, so for an empty \<open>partial\<close> it keeps the value
  left by the item before.
\<close>

fun matchChars :: "string \<Rightarrow> string \<Rightarrow> bool \<Rightarrow> bool" where
  "matchChars [] name matches = matches"
| "matchChars (p # ps) name matches =
     (case name of
        [] \<Rightarrow> False
      | n # ns \<Rightarrow> if p = n then matchChars ps ns True else False)"

fun matchItems :: "string \<Rightarrow> string list \<Rightarrow> bool \<Rightarrow> string list" where
  "matchItems partial [] matches = []"
| "matchItems partial (name # items) matches =
     (let m = matchChars partial name matches
      in (if m then [name] else []) @ matchItems partial items m)"

text \<open>
  \<open>match(partial, items)\<close>. \<open>partial\<close> is \<open>undefined\<close> (\<open>None\<close>) when the phrases are empty;
  reading its length then raises a TypeError, unless there is no item to compare.
\<close>

definition match :: "string option \<Rightarrow> string list \<Rightarrow> error + string list" where
  "match partial items =
     (case partial of
        None \<Rightarrow> if items = [] then Inr [] else Inl TypeError
      | Some p \<Rightarrow> Inr (matchItems p items False))"

text \<open>
  The options of a command: an object whose keys are option names, each with an optional
  \<open>next\<close> object of the same shape. The list holds the keys in the order in which
  \<open>Object.keys\<close> lists them.
\<close>

datatype optionNode = OptionNode "(string \<times> optionNode) list option"

fun nextOf :: "optionNode \<Rightarrow> (string \<times> optionNode) list option" where
  "nextOf (OptionNode n) = n"

text \<open>\<open>phrases[i]\<close>, \<open>None\<close> for \<open>undefined\<close>; as a property key \<open>undefined\<close> is the string.\<close>

definition phraseAt :: "string list \<Rightarrow> int \<Rightarrow> string option" where
  "phraseAt phrases i =
     (if 0 \<le> i \<and> i < int (length phrases) then Some (phrases ! nat i) else None)"

definition propertyKey :: "string option \<Rightarrow> string" where
  "propertyKey k = (case k of None \<Rightarrow> ''undefined'' | Some x \<Rightarrow> x)"

text \<open>
  \<open>option && option.next\<close> for \<open>option = options[phrases[1]]\<close>: the next level of the option
  typed after the command name, when there is one.
\<close>

definition nextOptions ::
    "(string \<times> optionNode) list \<Rightarrow> string list \<Rightarrow> (string \<times> optionNode) list option" where
  "nextOptions options phrases =
     (case map_of options (propertyKey (phraseAt phrases 1)) of
        None \<Rightarrow> None
      | Some node \<Rightarrow> nextOf node)"

definition autoCompleteOption ::
    "env \<Rightarrow> string list \<Rightarrow> (string \<times> optionNode) list \<Rightarrow> feed \<Rightarrow> error + feed" where
  "autoCompleteOption e phrases options s =
     (let partial = phraseAt phrases (int (length phrases) - 1)
      in case nextOptions options phrases of
           Some nxt \<Rightarrow>
             (let nextKeys = map fst nxt in
              case match partial nextKeys of
                Inl err \<Rightarrow> Inl err
              | Inr matched \<Rightarrow>
                  if length matched = 1 then
                    Inr (s\<lparr>inputText := replaceLastInputPhrase e (hd matched @ '' '') (inputText s)\<rparr>)
                  else if length matched > 0 then
                    Inr (queueMessage [join '' - '' matched] s)
                  else if length nextKeys > 0 then
                    Inr (queueMessage [join '' - '' nextKeys] s)
                  else Inr s)
         | None \<Rightarrow>
             if length phrases \<le> 2 then
               (let firstLevelOptions = map fst options in
                case match partial firstLevelOptions of
                  Inl err \<Rightarrow> Inl err
                | Inr matched \<Rightarrow>
                    if length matched = 1 then
                      Inr (s\<lparr>inputText := replaceLastInputPhrase e (hd matched @ '' '') (inputText s)\<rparr>)
                    else if length matched > 0 then
                      Inr (queueMessage [join '' - '' matched]
                             (setCommandInput (trimSpace e (inputText s)) s))
                    else if partial = Some [] then
                      Inr (queueMessage [join '' - '' firstLevelOptions] s)
                    else Inr s)
             else Inr s)"

text \<open>
  The loop of \<open>expandPartialMatch\<close> from index \<open>i\<close> on. The inner loop compares the
  character at \<open>i\<close> of every matched command with that of the first. On a difference the
  function returns the text built so far; when the loop runs to the end of the first
  command it returns the empty string.
\<close>

function expandFrom ::
    "env \<Rightarrow> string list \<Rightarrow> string \<Rightarrow> string \<Rightarrow> string \<Rightarrow> nat \<Rightarrow> string \<Rightarrow> string" where
  "expandFrom e matchedCommands firstCommand partialMatch sign i expanded =
     (if i < length firstCommand then
        (let commandChar = charAt firstCommand i;
             matched = list_all (\<lambda>c. charAt c i = commandChar) matchedCommands
         in if matched then
              expandFrom e matchedCommands firstCommand partialMatch sign (Suc i)
                (expanded @ commandChar)
            else if isCommandChar e sign then sign @ partialMatch @ expanded
            else partialMatch @ expanded)
      else [])"
  by pat_completeness auto
termination
  by (relation "measure (\<lambda>(e, ms, firstCommand, p, sign, i, expanded). length firstCommand - i)")
     auto

declare expandFrom.simps [simp del]

definition expandPartialMatch :: "env \<Rightarrow> string list \<Rightarrow> string \<Rightarrow> string \<Rightarrow> error + string" where
  "expandPartialMatch e matchedCommands partialMatch sign =
     (case matchedCommands of
        [] \<Rightarrow> Inl TypeError
      | firstCommand # _ \<Rightarrow>
          Inr (expandFrom e matchedCommands firstCommand partialMatch sign (length partialMatch) []))"

text \<open>
  The test \<open>autoCompleteCommand\<close> makes for each character: the command's access level is
  not a number or the user has it, and the user has the command's visibility.
\<close>

definition commandAllowed :: "env \<Rightarrow> feed \<Rightarrow> string \<Rightarrow> bool" where
  "commandAllowed e s c =
     (hasAccess (getCommandAccessLevel e c) s
      \<and> (case getCommandVisibility e c of None \<Rightarrow> False | Some v \<Rightarrow> v \<le> userAccessLevel s))"

fun commandMatches :: "bool \<Rightarrow> string \<Rightarrow> string \<Rightarrow> bool \<Rightarrow> bool" where
  "commandMatches allowed [] c matches = matches"
| "commandMatches allowed (p # ps) c matches =
     (case c of
        [] \<Rightarrow> False
      | n # ns \<Rightarrow> if allowed \<and> p = n then commandMatches allowed ps ns True else False)"

text \<open>The commands \<open>autoCompleteCommand\<close> collects in \<open>matched\<close>.\<close>

definition matchedCommands :: "env \<Rightarrow> feed \<Rightarrow> string \<Rightarrow> string list" where
  "matchedCommands e s partialCommand =
     filter (\<lambda>c. commandMatches (commandAllowed e s c) partialCommand c False) (allCommands e)"

definition autoCompleteCommand :: "env \<Rightarrow> string list \<Rightarrow> feed \<Rightarrow> error + feed" where
  "autoCompleteCommand e phrases s =
     (case phrases of
        [] \<Rightarrow> Inl TypeError
      | p0 # _ \<Rightarrow>
          (let sign = charAt p0 0 in
           if length phrases = 1 \<and> length p0 > 0
              \<and> (isCommandChar e sign \<or> mode s = ''cmd'' \<or> user s = None)
           then
             (let partialCommand = (if isCommandChar e sign then drop 1 p0 else p0);
                  matched = matchedCommands e s partialCommand
              in if length matched = 1 then
                   (let newText = (if sign \<in> set (commandChars e) then sign else [])
                                  @ hd matched @ '' ''
                    in Inr (setCommandInput newText (clearInput s)))
                 else if length matched > 0 then
                   (case expandPartialMatch e matched partialCommand sign of
                      Inl err \<Rightarrow> Inl err
                    | Inr x \<Rightarrow>
                        Inr (queueMessage [join '' - '' matched]
                               (setCommandInput (trimSpace e x) s)))
                 else Inr s)
           else Inr s))"

text \<open>
  Collaborators for the examples: a \<open>trimSpace\<close> that removes the blanks at both ends, a
  registry with the two commands \<open>follow\<close> and \<open>followpublic\<close>, open to every user.
\<close>

definition trimBlanks :: "string \<Rightarrow> string" where
  "trimBlanks t = rev (dropWhile (\<lambda>c. c = CHR '' '') (rev (dropWhile (\<lambda>c. c = CHR '' '') t)))"

definition followEnv :: env where
  "followEnv =
     \<lparr>trimSpace = trimBlanks, toLowerCase = (\<lambda>t. t),
      getCommand = (\<lambda>n. if n = ''follow'' \<or> n = ''followpublic''
                         then Some \<lparr>commandName = n, accessLevel = Some 1,
                                    clearBeforeUse = False, clearAfterUse = False\<rparr>
                         else None),
      aliases = (\<lambda>n. None), commandChars = [''-''], isCommandChar = (\<lambda>c. c = ''-''),
      commandFail = ''command not found'', mustRegister = [''You must register''],
      allCommands = [''follow'', ''followpublic''],
      getCommandAccessLevel = (\<lambda>n. Some 1), getCommandVisibility = (\<lambda>n. Some 1),
      replaceLastInputPhrase = (\<lambda>new old. join '' '' (butlast (split_space old) @ [new]))\<rparr>"

text \<open>A session of the multi-step command \<open>login\<close> at step 2, with \<open>abort\<close> typed.\<close>

definition loginStep :: feed where
  "loginStep = initialFeed\<lparr>helper_command := Some ''login'', onStep := 2, inputText := ''abort''\<rparr>"

text \<open>The same session at step 1 with a line typed, and with the keys blocked.\<close>

definition loginInput :: feed where
  "loginInput = initialFeed\<lparr>helper_command := Some ''login'', onStep := 1, inputText := ''bob  secret''\<rparr>"

definition loginBlocked :: feed where
  "loginBlocked = initialFeed\<lparr>helper_command := Some ''login'', keysBlocked := True, inputText := ''bob''\<rparr>"

text \<open>A line whose first word is no command, typed at top level.\<close>

definition unknownInput :: feed where
  "unknownInput = initialFeed\<lparr>inputText := ''foo bar''\<rparr>"

text \<open>The log \<open>a\<close>, \<open>b\<close>, \<open>c\<close> with the pointer reset, and what navigation shows of a state.\<close>

definition historyABC :: feed where
  "historyABC = resetPreviousCommandPointer (initialFeed\<lparr>commandHistory := [''a'', ''b'', ''c'']\<rparr>)"

definition historyView :: "feed \<Rightarrow> string \<times> int \<times> string list" where
  "historyView s = (inputText s, previousCommandPointer s, commandHistory s)"

text \<open>
  States for the autocompletion examples: \<open>fo\<close> typed at top level; a command whose option
  \<open>opt\<close> has the next level \<open>a\<close>, \<open>b\<close>, with \<open>cmd opt zz\<close> typed.
\<close>

definition followTyped :: feed where
  "followTyped = initialFeed\<lparr>inputText := ''fo''\<rparr>"

definition optionTree :: "(string \<times> optionNode) list" where
  "optionTree = [(''opt'', OptionNode (Some [(''a'', OptionNode None), (''b'', OptionNode None)]))]"

definition optionTyped :: feed where
  "optionTyped = initialFeed\<lparr>inputText := ''cmd opt zz''\<rparr>"

text \<open>
  The sound state left by a finished playback of \<open>.-#\<close>: the queue is empty again and the
  cursor still holds 400.
\<close>

definition staleSound :: sound where
  "staleSound = runTimer (FinishSoundQueue 6 ''.-#'' False) (playMorse ''.-#'' False emptySound)"

text \<open>The session \<open>login\<close> with \<open>abort\<close> typed while the keys are blocked.\<close>

definition loginAbortBlocked :: feed where
  "loginAbortBlocked = loginStep\<lparr>keysBlocked := True\<rparr>"

text \<open>
  Collaborators and states for unknown commands: a registry that knows only \<open>msg\<close>; a user
  in chat mode typing \<open>-foo\<close> and typing \<open>hello all\<close>; nobody logged in; a line typed while
  the keys are blocked.
\<close>

definition chatEnv :: env where
  "chatEnv = followEnv\<lparr>getCommand := (\<lambda>n. if n = ''msg''
       then Some \<lparr>commandName = ''msg'', accessLevel = Some 1, clearBeforeUse = False,
                  clearAfterUse = False\<rparr>
       else None)\<rparr>"

definition chatDashInput :: feed where
  "chatDashInput = initialFeed\<lparr>mode := ''chat'', inputText := ''-foo''\<rparr>"

definition chatLineInput :: feed where
  "chatLineInput = initialFeed\<lparr>mode := ''chat'', inputText := ''hello all''\<rparr>"

definition anonymousInput :: feed where
  "anonymousInput = initialFeed\<lparr>user := None, inputText := ''foo bar''\<rparr>"

definition unknownBlocked :: feed where
  "unknownBlocked = initialFeed\<lparr>keysBlocked := True, inputText := ''foo bar''\<rparr>"

section \<open>Properties of the Morse scheduler\<close>

lemma morseSymbol_spec: "morseSymbol c = (spec_duration c, is_pulse c)"
  by (auto simp: morseSymbol_def spec_duration_def is_pulse_def dot_def dash_def
      morseSeparator_def)




lemma upt_two: "[a..<a + (2 + k)] = a # Suc a # [Suc (Suc a)..<a + (2 + k)]"
proof -
  have "[a..<a + (2 + k)] = a # [Suc a..<a + (2 + k)]"
    by (rule upt_conv_Cons) simp
  also have "[Suc a..<a + (2 + k)] = Suc a # [Suc (Suc a)..<a + (2 + k)]"
    by (rule upt_conv_Cons) simp
  finally show ?thesis .
qed

text \<open>The ids pushed on the sound queue are those of the timers the loop creates.\<close>

lemma playLoop_soundQueue:
  "soundQueue (playLoop m s) =
     soundQueue s @ [length (timers s)..<length (timers s) + 2 * length (filter is_pulse m)]"
proof (induction m arbitrary: s)
  case Nil
  then show ?case by simp
next
  case (Cons code rest)
  show ?case
  proof (cases "is_pulse code")
    case True
    have "2 * length (filter is_pulse (code # rest)) = 2 + 2 * length (filter is_pulse rest)"
      using True by simp
    then have "[length (timers s)..<length (timers s) + 2 * length (filter is_pulse (code # rest))]
          = length (timers s) # Suc (length (timers s))
            # [Suc (Suc (length (timers s)))..<
                 length (timers s) + (2 + 2 * length (filter is_pulse rest))]"
      by (simp only: upt_two)
    then show ?thesis
      using True by (simp add: Cons.IH morseSymbol_spec setTimeout_def Let_def)
  next
    case False
    then show ?thesis
      by (simp add: Cons.IH morseSymbol_spec)
  qed
qed

lemma playMorse_soundQueue:
  "soundQueue (playMorse m silent s) =
     soundQueue s @ [length (timers s)..<length (timers s) + 2 * length (filter is_pulse m)]"
  by (simp add: playMorse_def setTimeout_def playLoop_soundQueue Let_def)

lemma playMorse_last_timer:
  "fst (last (timers (playMorse m silent s))) = FinishSoundQueue (2 * length m) m silent"
  by (simp add: playMorse_def setTimeout_def Let_def)

lemma all_pulse_iff:
  "(2 * length m = 2 * length (filter is_pulse m)) = (\<forall>c\<in>set m. is_pulse c)"
proof
  assume "2 * length m = 2 * length (filter is_pulse m)"
  then have "length (filter is_pulse m) = length m" by simp
  then show "\<forall>c\<in>set m. is_pulse c"
    using length_filter_less [of _ m is_pulse] by fastforce
next
  assume "\<forall>c\<in>set m. is_pulse c"
  then have "filter is_pulse m = m" by (simp add: filter_id_conv)
  then show "2 * length m = 2 * length (filter is_pulse m)" by simp
qed




text \<open>
  C7, as the code has it. Playing \<open>.-#\<close> on an empty sound queue, whatever cursor an
  earlier playback has left, schedules gain 1 at 0 and gain 0 at 50 for the dot, gain 1 at
  50 and gain 0 at 200 for the dash, nothing for the separator, and the cleanup at
  50 + 150 + 200 = 400. When the cleanup runs it emits the text with the separators
  removed, \<open>.-\<close>, and nothing when the playback is silent.
\<close>

theorem playMorse_dot_dash_separator:
  assumes "soundQueue s = []"
  shows "timers (playMorse ''.-#'' silent s) =
     timers s @ [(SetGain 1, 0), (SetGain 0, 50), (SetGain 1, 50), (SetGain 0, 200),
      (FinishSoundQueue 6 ''.-#'' silent, 400)]
   \<and> soundTimeout (playMorse ''.-#'' silent s) = 400
   \<and> soundMessages (runTimer (FinishSoundQueue 6 ''.-#'' False) q) =
       soundMessages q @ [''Morse code message received: .-'']
   \<and> soundMessages (runTimer (FinishSoundQueue 6 ''.-#'' True) q) = soundMessages q"
  using assms
  by (simp add: playMorse_def setTimeout_def morseSymbol_def dot_def dash_def
      morseSeparator_def finishSoundQueue_def Let_def)

theorem playMorse_dot_dash_separator_witness:
  "soundQueue staleSound = [] \<and> soundTimeout staleSound = 400
   \<and> timers (playMorse ''.-#'' False staleSound) =
       timers staleSound @ [(SetGain 1, 0), (SetGain 0, 50), (SetGain 1, 50), (SetGain 0, 200),
        (FinishSoundQueue 6 ''.-#'' False, 400)]
   \<and> soundMessages (runTimer (FinishSoundQueue 6 ''.-#'' False) staleSound) =
       [''Morse code message received: .-'', ''Morse code message received: .-'']"
proof -
  have h: "soundQueue staleSound = []"
    by (simp add: staleSound_def playMorse_def setTimeout_def morseSymbol_def dot_def dash_def
        morseSeparator_def emptySound_def finishSoundQueue_def Let_def)
  have v: "soundTimeout staleSound = 400"
      "soundMessages staleSound = [''Morse code message received: .-'']"
    by (simp_all add: staleSound_def playMorse_def setTimeout_def morseSymbol_def dot_def dash_def
        morseSeparator_def emptySound_def finishSoundQueue_def Let_def)
  show ?thesis
    using h v playMorse_dot_dash_separator [OF h, of False staleSound]
    by simp
qed

text \<open>
  C7 as stated fails: the cleanup of \<open>.-#\<close> is the last timer scheduled, its delay is 400,
  and no cleanup is scheduled at 250.
\<close>

theorem playMorse_cleanup_not_at_250:
  "last (timers (playMorse ''.-#'' False emptySound)) = (FinishSoundQueue 6 ''.-#'' False, 400)
   \<and> (FinishSoundQueue 6 ''.-#'' False, 250) \<notin> set (timers (playMorse ''.-#'' False emptySound))"
  by (simp add: playMorse_def setTimeout_def morseSymbol_def dot_def dash_def
      morseSeparator_def emptySound_def Let_def)

text \<open>
  C10, as the code has it. \<open>playMorse\<close> appends two entries to the sound queue for each dot
  or dash and none for any other symbol. The cleanup it schedules asks \<open>splice\<close> to remove
  twice the length of the string from the front of the queue, and \<open>splice\<close> removes that
  many entries or the whole queue when it is shorter. The count asked for equals the count
  appended exactly when every symbol is a dot or a dash; and when the queue holds at least
  the count asked for, the count removed equals the count appended only when every symbol is
  a dot or a dash.
\<close>

theorem playMorse_queue_counts:
  "length (soundQueue (playMorse m silent s)) =
     length (soundQueue s) + 2 * length (filter is_pulse m)
   \<and> take (length (soundQueue s)) (soundQueue (playMorse m silent s)) = soundQueue s
   \<and> fst (last (timers (playMorse m silent s))) = FinishSoundQueue (2 * length m) m silent
   \<and> soundQueue (runTimer (FinishSoundQueue (2 * length m) m silent) q) =
       drop (2 * length m) (soundQueue q)
   \<and> length (soundQueue q)
       - length (soundQueue (runTimer (FinishSoundQueue (2 * length m) m silent) q)) =
       min (2 * length m) (length (soundQueue q))
   \<and> ((2 * length m = 2 * length (filter is_pulse m)) = (\<forall>c\<in>set m. is_pulse c))
   \<and> (2 * length m \<le> length (soundQueue q)
       \<and> length (soundQueue q)
           - length (soundQueue (runTimer (FinishSoundQueue (2 * length m) m silent) q)) =
         length (soundQueue (playMorse m silent s)) - length (soundQueue s)
       \<longrightarrow> (\<forall>c\<in>set m. is_pulse c))"
proof -
  have removed: "soundQueue (runTimer (FinishSoundQueue (2 * length m) m silent) q) =
      drop (2 * length m) (soundQueue q)"
    by (simp add: finishSoundQueue_def Let_def)
  have appended: "length (soundQueue (playMorse m silent s)) =
      length (soundQueue s) + 2 * length (filter is_pulse m)"
    by (simp add: playMorse_soundQueue)
  have kept: "take (length (soundQueue s)) (soundQueue (playMorse m silent s)) = soundQueue s"
    by (simp add: playMorse_soundQueue)
  have count: "length (soundQueue q)
       - length (soundQueue (runTimer (FinishSoundQueue (2 * length m) m silent) q)) =
       min (2 * length m) (length (soundQueue q))"
    unfolding removed by simp
  have uncapped: "\<forall>c\<in>set m. is_pulse c"
    if "2 * length m \<le> length (soundQueue q)"
      and "length (soundQueue q)
           - length (soundQueue (runTimer (FinishSoundQueue (2 * length m) m silent) q)) =
         length (soundQueue (playMorse m silent s)) - length (soundQueue s)"
  proof -
    from that have "2 * length m = 2 * length (filter is_pulse m)"
      unfolding count appended by simp
    then show ?thesis by (simp only: all_pulse_iff)
  qed
  show ?thesis
    using removed appended kept count uncapped all_pulse_iff [of m] playMorse_last_timer [of m silent s]
    by blast
qed

theorem playMorse_queue_counts_witness:
  "2 * length ''.-'' \<le> length (soundQueue (playMorse ''.-'' False (playMorse ''.-'' False emptySound)))
   \<and> length (soundQueue (playMorse ''.-'' False (playMorse ''.-'' False emptySound)))
       - length (soundQueue (runTimer (FinishSoundQueue (2 * length ''.-'') ''.-'' False)
           (playMorse ''.-'' False (playMorse ''.-'' False emptySound)))) =
     length (soundQueue (playMorse ''.-'' False emptySound)) - length (soundQueue emptySound)
   \<and> is_pulse (CHR ''.'') \<and> is_pulse (CHR ''-'')"
proof -
  have q: "soundQueue (playMorse ''.-'' False (playMorse ''.-'' False emptySound)) = [0, 1, 2, 3, 5, 6, 7, 8]"
    by (simp add: playMorse_def setTimeout_def morseSymbol_def dot_def dash_def
        morseSeparator_def emptySound_def Let_def)
  have q1: "soundQueue (playMorse ''.-'' False emptySound) = [0, 1, 2, 3]"
    by (simp add: playMorse_def setTimeout_def morseSymbol_def dot_def dash_def
        morseSeparator_def emptySound_def Let_def)
  have e: "soundQueue emptySound = []"
    by (simp add: emptySound_def)
  have r: "soundQueue (runTimer (FinishSoundQueue (2 * length ''.-'') ''.-'' False)
           (playMorse ''.-'' False (playMorse ''.-'' False emptySound))) = [5, 6, 7, 8]"
    by (simp add: finishSoundQueue_def q Let_def)
  have h: "2 * length ''.-'' \<le> length (soundQueue (playMorse ''.-'' False (playMorse ''.-'' False emptySound)))
     \<and> length (soundQueue (playMorse ''.-'' False (playMorse ''.-'' False emptySound)))
       - length (soundQueue (runTimer (FinishSoundQueue (2 * length ''.-'') ''.-'' False)
           (playMorse ''.-'' False (playMorse ''.-'' False emptySound)))) =
     length (soundQueue (playMorse ''.-'' False emptySound)) - length (soundQueue emptySound)"
    unfolding q q1 r e by simp
  have a: "\<forall>c\<in>set ''.-''. is_pulse c"
    using h playMorse_queue_counts [of "''.-''" False emptySound
        "playMorse ''.-'' False (playMorse ''.-'' False emptySound)"]
    by blast
  have p: "is_pulse (CHR ''.'') \<and> is_pulse (CHR ''-'')"
    using a by simp
  show ?thesis
    using h p by blast
qed

text \<open>
  C10 as stated fails for \<open>.#\<close> played on an empty queue: two entries are appended, the
  cleanup asks for four and removes the two that are there, so the count removed equals the
  count appended although the separator is not a pulse.
\<close>

theorem playMorse_removed_equals_appended_with_gap:
  "length (soundQueue (playMorse ''.#'' False emptySound)) - length (soundQueue emptySound) = 2
   \<and> length (soundQueue (playMorse ''.#'' False emptySound))
       - length (soundQueue (runTimer (FinishSoundQueue 4 ''.#'' False)
           (playMorse ''.#'' False emptySound))) = 2
   \<and> last (timers (playMorse ''.#'' False emptySound)) = (FinishSoundQueue 4 ''.#'' False, 250)
   \<and> \<not> is_pulse (CHR ''#'')"
  by (simp add: playMorse_def setTimeout_def morseSymbol_def dot_def dash_def
      morseSeparator_def emptySound_def finishSoundQueue_def is_pulse_def Let_def)

section \<open>Properties of the command queue\<close>

lemma queueCommand_stored:
  "queueCommand (command x) (data x) (commandMsg x) s = s\<lparr>commandQueue := commandQueue s @ [x]\<rparr>"
  by (cases x) (simp add: queueCommand_def)

lemma enqueueAll_append: "enqueueAll xs s = s\<lparr>commandQueue := commandQueue s @ xs\<rparr>"
  unfolding enqueueAll_def
  by (induction xs arbitrary: s) (simp_all add: queueCommand_stored)

lemma timed_Nil: "timed t [] = []"
  by (simp add: timed_def)

lemma timed_Cons:
  "timed t (x # q) = (t, command x, Some (data x)) # timed (t + commandTime) q"
proof -
  have "[0..<length (x # q)] = 0 # map Suc [0..<length q]"
    by (simp add: upt_conv_Cons map_Suc_upt del: upt_Suc)
  then show ?thesis
    by (simp add: timed_def comp_def add.assoc del: upt_Suc)
qed

lemma fireTimer_empty:
  assumes "pendingTimers s = [t]" "commandQueue s = []"
  shows "fireTimer s = s\<lparr>clock := max (clock s) t, pendingTimers := [], commmandUsed := False\<rparr>"
  using assms by (simp add: fireTimer_def consumeCommandQueue_def setCommandUsed_def)

lemma fireTimer_Cons:
  assumes "pendingTimers s = [t]" "commandQueue s = x # q" "clock s \<le> t"
  shows "pendingTimers (fireTimer s) = [t + commandTime]"
    and "commandQueue (fireTimer s) = q"
    and "clock (fireTimer s) = t"
    and "commmandUsed (fireTimer s)"
    and "triggered (fireTimer s) = triggered s @ [(t, command x, Some (data x))]"
  using assms
  by (simp_all add: fireTimer_def consumeCommandQueue_def setCommandUsed_def triggerCommand_def
      queueMessage_def Let_def max_def split: option.splits)

lemma drain_fire:
  assumes "pendingTimers s = [t]"
  shows "drain s = drain (fireTimer s)"
  using assms by (subst drain.simps) simp

lemma drain_done:
  assumes "pendingTimers s = []"
  shows "drain s = s"
  using assms by (subst drain.simps) simp

lemma drain_pending:
  assumes "pendingTimers s = [t]" "clock s \<le> t"
  shows "triggered (drain s) = triggered s @ timed t (commandQueue s)
         \<and> commandQueue (drain s) = [] \<and> \<not> commmandUsed (drain s)
         \<and> pendingTimers (drain s) = []"
  using assms
proof (induction "commandQueue s" arbitrary: s t)
  case Nil
  then have f: "fireTimer s = s\<lparr>clock := max (clock s) t, pendingTimers := [], commmandUsed := False\<rparr>"
    by (simp add: fireTimer_empty)
  have "drain s = drain (fireTimer s)"
    using Nil by (simp add: drain_fire)
  also have "\<dots> = fireTimer s"
    by (rule drain_done) (simp add: f)
  finally show ?case
    using Nil(1)[symmetric] by (simp add: f timed_Nil)
next
  case (Cons x q)
  note c = fireTimer_Cons [OF Cons.prems(1) Cons.hyps(2)[symmetric] Cons.prems(2)]
  have d: "drain s = drain (fireTimer s)"
    using Cons.prems by (simp add: drain_fire)
  have ih: "triggered (drain (fireTimer s)) =
        triggered (fireTimer s) @ timed (t + commandTime) (commandQueue (fireTimer s))
      \<and> commandQueue (drain (fireTimer s)) = [] \<and> \<not> commmandUsed (drain (fireTimer s))
      \<and> pendingTimers (drain (fireTimer s)) = []"
    by (rule Cons.hyps(1)) (simp_all add: c)
  show ?case
    using ih Cons.hyps(2)[symmetric]
    by (simp add: d c timed_Cons)
qed

lemma drain_funpow:
  assumes "pendingTimers s = [t]" "clock s \<le> t"
  shows "drain s = (fireTimer ^^ Suc (length (commandQueue s))) s"
  using assms
proof (induction "commandQueue s" arbitrary: s t)
  case Nil
  then have f: "fireTimer s = s\<lparr>clock := max (clock s) t, pendingTimers := [], commmandUsed := False\<rparr>"
    by (simp add: fireTimer_empty)
  have "drain s = drain (fireTimer s)"
    using Nil by (simp add: drain_fire)
  also have "\<dots> = fireTimer s"
    by (rule drain_done) (simp add: f)
  finally show ?case
    using Nil(1)[symmetric] by simp
next
  case (Cons x q)
  note c = fireTimer_Cons [OF Cons.prems(1) Cons.hyps(2)[symmetric] Cons.prems(2)]
  have "drain s = drain (fireTimer s)"
    using Cons.prems by (simp add: drain_fire)
  also have "\<dots> = (fireTimer ^^ Suc (length (commandQueue (fireTimer s)))) (fireTimer s)"
    by (rule Cons.hyps(1) [where t = "t + commandTime"]) (simp_all add: c)
  also have "\<dots> = (fireTimer ^^ Suc (length (commandQueue s))) s"
    using Cons.hyps(2)[symmetric] by (simp add: c funpow_swap1)
  finally show ?case .
qed

lemma draining_busy:
  assumes "pendingTimers s = [t]" "clock s \<le> t" "commmandUsed s" "k \<le> length (commandQueue s)"
  shows "commmandUsed ((fireTimer ^^ k) s)"
  using assms
proof (induction k arbitrary: s t)
  case 0
  then show ?case by simp
next
  case (Suc k)
  then obtain x q where q: "commandQueue s = x # q"
    by (cases "commandQueue s") auto
  note c = fireTimer_Cons [OF Suc.prems(1) q Suc.prems(2)]
  have "commmandUsed ((fireTimer ^^ k) (fireTimer s))"
    by (rule Suc.IH [where t = "t + commandTime"]) (use Suc.prems q in \<open>simp_all add: c\<close>)
  then show ?case by (simp add: funpow_swap1)
qed

lemma startCommandQueue_busy: "commmandUsed s \<Longrightarrow> startCommandQueue s = s"
  by (simp add: startCommandQueue_def)

lemma start_idle_Cons:
  assumes "\<not> commmandUsed s" "pendingTimers s = []" "commandQueue s = x # q"
  shows "pendingTimers (startCommandQueue s) = [clock s + commandTime]"
    and "commandQueue (startCommandQueue s) = q"
    and "clock (startCommandQueue s) = clock s"
    and "commmandUsed (startCommandQueue s)"
    and "triggered (startCommandQueue s) = triggered s @ [(clock s, command x, Some (data x))]"
  using assms
  by (simp_all add: startCommandQueue_def consumeCommandQueue_def setCommandUsed_def
      triggerCommand_def queueMessage_def Let_def split: option.splits)

lemma start_idle_Nil:
  assumes "\<not> commmandUsed s" "pendingTimers s = []" "commandQueue s = []"
  shows "startCommandQueue s = s"
  using assms
  by (simp add: startCommandQueue_def consumeCommandQueue_def setCommandUsed_def)

text \<open>
  C1. Take a dispatcher at rest: not busy and with no timer pending. After any sequence of
  \<open>queueCommand\<close> calls, \<open>startCommandQueue\<close> and the timers that follow run every queued
  entry, the ones already queued first and then the new ones in the order submitted, the
  \<open>i\<close>-th at the start time plus \<open>i\<close> times the fixed delay of 1000ms; one timer firing per
  entry finishes the queue and leaves the dispatcher at rest. At every moment before the
  last timer has fired the busy flag is set, and \<open>startCommandQueue\<close> changes nothing.
\<close>

theorem dispatcher_fifo:
  assumes idle: "\<not> commmandUsed s" "pendingTimers s = []"
  shows "triggered (drain (startCommandQueue (enqueueAll xs s))) =
           triggered s @ timed (clock s) (commandQueue s @ xs)
         \<and> commandQueue (drain (startCommandQueue (enqueueAll xs s))) = []
         \<and> \<not> commmandUsed (drain (startCommandQueue (enqueueAll xs s)))
         \<and> drain (startCommandQueue (enqueueAll xs s)) =
             (fireTimer ^^ length (commandQueue s @ xs)) (startCommandQueue (enqueueAll xs s))
         \<and> (\<forall>k < length (commandQueue s @ xs).
               commmandUsed ((fireTimer ^^ k) (startCommandQueue (enqueueAll xs s)))
               \<and> startCommandQueue ((fireTimer ^^ k) (startCommandQueue (enqueueAll xs s))) =
                   (fireTimer ^^ k) (startCommandQueue (enqueueAll xs s)))"
proof (cases "commandQueue s @ xs")
  case Nil
  have e: "enqueueAll xs s = s" using Nil by (simp add: enqueueAll_append)
  have st: "startCommandQueue s = s"
    using idle Nil by (simp add: start_idle_Nil)
  have dr: "drain s = s"
    using idle by (simp add: drain_done)
  show ?thesis
    unfolding e st dr using idle Nil by (simp add: timed_Nil)
next
  case (Cons x q)
  let ?s1 = "enqueueAll xs s"
  let ?s2 = "startCommandQueue ?s1"
  have s1: "\<not> commmandUsed ?s1" "pendingTimers ?s1 = []" "commandQueue ?s1 = x # q"
      "clock ?s1 = clock s" "triggered ?s1 = triggered s"
    using idle Cons by (simp_all add: enqueueAll_append)
  note st = start_idle_Cons [OF s1(1) s1(2) s1(3)]
  have p: "pendingTimers ?s2 = [clock s + commandTime]" "clock ?s2 \<le> clock s + commandTime"
    using st s1 by simp_all
  have d: "triggered (drain ?s2) = triggered ?s2 @ timed (clock s + commandTime) (commandQueue ?s2)
         \<and> commandQueue (drain ?s2) = [] \<and> \<not> commmandUsed (drain ?s2)
         \<and> pendingTimers (drain ?s2) = []"
    by (rule drain_pending [OF p])
  have f: "drain ?s2 = (fireTimer ^^ length (commandQueue s @ xs)) ?s2"
    using drain_funpow [OF p] by (simp only: st Cons list.size) simp
  have busy: "commmandUsed ((fireTimer ^^ k) ?s2)" if "k < length (commandQueue s @ xs)" for k
    by (rule draining_busy [OF p st(4)]) (use that Cons st in simp)
  have t: "triggered (drain ?s2) = triggered s @ timed (clock s) (commandQueue s @ xs)"
    using d by (simp add: st s1 Cons timed_Cons)
  show ?thesis
    using d t f busy startCommandQueue_busy by blast
qed

theorem dispatcher_fifo_witness:
  "\<not> commmandUsed initialFeed \<and> pendingTimers initialFeed = []
   \<and> triggered (drain (startCommandQueue (enqueueAll
          [\<lparr>command = CmdName ''help'', data = [], commandMsg = Some [''public$ help'']\<rparr>,
           \<lparr>command = CmdName ''whoami'', data = [''x''], commandMsg = None\<rparr>] initialFeed))) =
       [(0, CmdName ''help'', Some []), (1000, CmdName ''whoami'', Some [''x''])]"
proof -
  have h: "\<not> commmandUsed initialFeed" "pendingTimers initialFeed = []"
    by (simp_all add: initialFeed_def)
  have c: "triggered initialFeed = []" "clock initialFeed = 0" "commandQueue initialFeed = []"
    by (simp_all add: initialFeed_def)
  show ?thesis
    using h dispatcher_fifo [OF h, THEN conjunct1, of
        "[\<lparr>command = CmdName ''help'', data = [], commandMsg = Some [''public$ help'']\<rparr>,
          \<lparr>command = CmdName ''whoami'', data = [''x''], commandMsg = None\<rparr>]"]
    by (simp add: c timed_def commandTime_def)
qed

section \<open>Properties of the multi-step command\<close>

text \<open>
  C2, as the code has it. A success signal that asks for the next step and does not freeze
  raises the step cursor by exactly one, and the step handler is then called with the
  raised cursor; with the freeze flag the cursor is unchanged and the handler is called
  with it; with the no-further-step flag the session is reset, the cursor is not raised and
  no step handler is called. A failure signal leaves no active command, whatever the cursor
  is, and so do the abort tokens \<open>exit\<close> and \<open>abort\<close> submitted while the keys are not
  blocked. While the keys are blocked a submitted line, an abort token too, leaves the
  command active and its cursor as it was.
\<close>

theorem onCommandSuccess_cursor:
  "(\<not> noStepCall p \<and> \<not> freezeStep p \<longrightarrow>
      onStep (onCommandSuccess p s) = onStep s + 1
      \<and> stepCalls (onCommandSuccess p s) = stepCalls s @ [(helper_command s, onStep s + 1, newData p)]
      \<and> helper_command (onCommandSuccess p s) = helper_command s)
   \<and> (\<not> noStepCall p \<and> freezeStep p \<longrightarrow>
      onStep (onCommandSuccess p s) = onStep s
      \<and> stepCalls (onCommandSuccess p s) = stepCalls s @ [(helper_command s, onStep s, newData p)]
      \<and> helper_command (onCommandSuccess p s) = helper_command s)
   \<and> (noStepCall p \<longrightarrow>
      helper_command (onCommandSuccess p s) = None
      \<and> onStep (onCommandSuccess p s) = onStep s
      \<and> stepCalls (onCommandSuccess p s) = stepCalls s)
   \<and> helper_command (onCommandFail s) = None
   \<and> (helper_command s = Some c \<longrightarrow>
        abortCalls (onCommandFail s) = abortCalls s @ [c] \<and> stepCalls (onCommandFail s) = stepCalls s
        \<and> (\<not> keysBlocked s
             \<and> (firstPhrase (split_space (trimSpace e (inputText s))) = ''exit''
                  \<or> firstPhrase (split_space (trimSpace e (inputText s))) = ''abort'') \<longrightarrow>
             map_sum id helper_command (enterKeyHandler e s) = Inr None)
        \<and> (keysBlocked s \<longrightarrow>
             map_sum id helper_command (enterKeyHandler e s) = Inr (Some c)
             \<and> map_sum id onStep (enterKeyHandler e s) = Inr (onStep s)
             \<and> map_sum id abortCalls (enterKeyHandler e s) = Inr (abortCalls s)))"
  by (simp add: onCommandSuccess_def onCommandFail_def triggerCommandStep_def resetCommand_def
      abortCommand_def enterKeyHandler_def enterActive_def clearModeText_def clearInput_def
      resetPreviousCommandPointer_def Let_def split: option.splits)

theorem onCommandSuccess_cursor_witness:
  "onStep (onCommandSuccess \<lparr>noStepCall = False, freezeStep = False, newData = [''bob'']\<rparr> loginStep) = 3
   \<and> stepCalls (onCommandSuccess \<lparr>noStepCall = False, freezeStep = False, newData = [''bob'']\<rparr> loginStep)
       = [(Some ''login'', 3, [''bob''])]
   \<and> onStep (onCommandSuccess \<lparr>noStepCall = False, freezeStep = True, newData = [''bob'']\<rparr> loginStep) = 2
   \<and> helper_command (onCommandSuccess \<lparr>noStepCall = True, freezeStep = False, newData = []\<rparr> loginStep) = None
   \<and> onStep (onCommandSuccess \<lparr>noStepCall = True, freezeStep = False, newData = []\<rparr> loginStep) = 2
   \<and> helper_command loginStep = Some ''login''
   \<and> abortCalls (onCommandFail loginStep) = [''login'']
   \<and> \<not> keysBlocked loginStep
   \<and> firstPhrase (split_space (trimSpace followEnv (inputText loginStep))) = ''abort''
   \<and> map_sum id helper_command (enterKeyHandler followEnv loginStep) = Inr None
   \<and> helper_command loginAbortBlocked = Some ''login'' \<and> keysBlocked loginAbortBlocked
   \<and> map_sum id helper_command (enterKeyHandler followEnv loginAbortBlocked) = Inr (Some ''login'')"
proof -
  have h: "helper_command loginStep = Some ''login''" "\<not> keysBlocked loginStep"
      "firstPhrase (split_space (trimSpace followEnv (inputText loginStep))) = ''abort''"
      "onStep loginStep = 2" "stepCalls loginStep = []" "abortCalls loginStep = []"
    by (simp_all add: loginStep_def initialFeed_def followEnv_def trimBlanks_def firstPhrase_def)
  have b: "helper_command loginAbortBlocked = Some ''login''" "keysBlocked loginAbortBlocked"
    by (simp_all add: loginAbortBlocked_def loginStep_def initialFeed_def)
  show ?thesis
    using h b
      onCommandSuccess_cursor [of "\<lparr>noStepCall = False, freezeStep = False, newData = [''bob'']\<rparr>"
        loginStep "''login''" followEnv]
      onCommandSuccess_cursor [of "\<lparr>noStepCall = False, freezeStep = True, newData = [''bob'']\<rparr>"
        loginStep "''login''" followEnv]
      onCommandSuccess_cursor [of "\<lparr>noStepCall = True, freezeStep = False, newData = []\<rparr>"
        loginStep "''login''" followEnv]
      onCommandSuccess_cursor [of "\<lparr>noStepCall = True, freezeStep = False, newData = []\<rparr>"
        loginAbortBlocked "''login''" followEnv]
    by simp
qed

text \<open>
  C2 as stated fails: with the keys blocked, \<open>abort\<close> submitted during the session \<open>login\<close>
  calls no abort handler and the command stays active.
\<close>

theorem abort_while_blocked_keeps_session:
  "helper_command loginAbortBlocked = Some ''login''
   \<and> firstPhrase (split_space (trimSpace followEnv (inputText loginAbortBlocked))) = ''abort''
   \<and> map_sum id helper_command (enterKeyHandler followEnv loginAbortBlocked) = Inr (Some ''login'')
   \<and> map_sum id abortCalls (enterKeyHandler followEnv loginAbortBlocked) = Inr []"
  by (simp add: enterKeyHandler_def loginAbortBlocked_def loginStep_def initialFeed_def
      clearModeText_def clearInput_def resetPreviousCommandPointer_def followEnv_def
      trimBlanks_def firstPhrase_def Let_def)

section \<open>Properties of line submission\<close>

text \<open>
  C3, as the code has it. While a multi-step command is active and the keys are not
  blocked, a submitted line is trimmed and split at single spaces, and the pieces go to the
  step handler of the active command with the current step; the command queue and the
  history are untouched. The exceptions are the lines whose first piece is \<open>exit\<close> or
  \<open>abort\<close>: they abort the command and leave no active command. While the keys are blocked,
  a submitted line reaches no step handler and no abort handler, nothing is displayed or
  queued, the command stays active and the input is cleared. In every case the result does
  not depend on the command registry.
\<close>

theorem enterKeyHandler_active:
  assumes "helper_command s = Some c"
  shows "(\<not> keysBlocked s \<longrightarrow>
          (case enterKeyHandler e s of
            Inl err \<Rightarrow> False
          | Inr s' \<Rightarrow>
              (if firstPhrase (split_space (trimSpace e (inputText s))) = ''exit''
                  \<or> firstPhrase (split_space (trimSpace e (inputText s))) = ''abort''
               then helper_command s' = None \<and> abortCalls s' = abortCalls s @ [c]
                    \<and> stepCalls s' = stepCalls s
               else stepCalls s' =
                      stepCalls s @ [(Some c, onStep s, split_space (trimSpace e (inputText s)))]
                    \<and> helper_command s' = Some c \<and> onStep s' = onStep s
                    \<and> abortCalls s' = abortCalls s)
              \<and> commandQueue s' = commandQueue s \<and> triggered s' = triggered s
              \<and> commandHistory s' = commandHistory s))
         \<and> (keysBlocked s \<longrightarrow>
              enterKeyHandler e s =
                Inr (clearModeText (clearInput (resetPreviousCommandPointer (s\<lparr>keyPressed := True\<rparr>))))
              \<and> map_sum id stepCalls (enterKeyHandler e s) = Inr (stepCalls s)
              \<and> map_sum id abortCalls (enterKeyHandler e s) = Inr (abortCalls s)
              \<and> map_sum id helper_command (enterKeyHandler e s) = Inr (Some c)
              \<and> map_sum id onStep (enterKeyHandler e s) = Inr (onStep s)
              \<and> map_sum id messages (enterKeyHandler e s) = Inr (messages s)
              \<and> map_sum id commandQueue (enterKeyHandler e s) = Inr (commandQueue s)
              \<and> map_sum id commandHistory (enterKeyHandler e s) = Inr (commandHistory s)
              \<and> map_sum id inputText (enterKeyHandler e s) = Inr [])
         \<and> enterKeyHandler (e\<lparr>getCommand := g\<rparr>) s = enterKeyHandler e s"
  using assms
  by (simp add: enterKeyHandler_def enterActive_def triggerCommandStep_def resetCommand_def
      abortCommand_def queueMessage_def clearModeText_def clearInput_def
      resetPreviousCommandPointer_def Let_def)

theorem enterKeyHandler_active_witness:
  "\<not> keysBlocked loginInput \<and> helper_command loginInput = Some ''login''
   \<and> (case enterKeyHandler followEnv loginInput of
         Inl err \<Rightarrow> False
       | Inr s' \<Rightarrow> stepCalls s' = [(Some ''login'', 1, [''bob'', '''', ''secret''])]
                  \<and> helper_command s' = Some ''login'')
   \<and> keysBlocked loginBlocked \<and> helper_command loginBlocked = Some ''login''
   \<and> map_sum id stepCalls (enterKeyHandler followEnv loginBlocked) = Inr []
   \<and> map_sum id inputText (enterKeyHandler followEnv loginBlocked) = Inr []"
proof -
  have h: "helper_command loginInput = Some ''login''" "\<not> keysBlocked loginInput"
    by (simp_all add: loginInput_def initialFeed_def)
  have b: "helper_command loginBlocked = Some ''login''" "keysBlocked loginBlocked"
      "stepCalls loginBlocked = []"
    by (simp_all add: loginBlocked_def initialFeed_def)
  have p: "split_space (trimSpace followEnv (inputText loginInput)) = [''bob'', '''', ''secret'']"
      "stepCalls loginInput = []" "onStep loginInput = 1"
    by (simp_all add: loginInput_def initialFeed_def followEnv_def trimBlanks_def)
  have one: "case enterKeyHandler followEnv loginInput of
         Inl err \<Rightarrow> False
       | Inr s' \<Rightarrow> stepCalls s' = [(Some ''login'', 1, [''bob'', '''', ''secret''])]
                  \<and> helper_command s' = Some ''login''"
    using h enterKeyHandler_active [OF h(1), of followEnv "getCommand followEnv"]
    by (simp add: p firstPhrase_def split: sum.splits)
  have two: "map_sum id stepCalls (enterKeyHandler followEnv loginBlocked) = Inr []
      \<and> map_sum id inputText (enterKeyHandler followEnv loginBlocked) = Inr []"
  proof -
    have "map_sum id stepCalls (enterKeyHandler followEnv loginBlocked) = Inr (stepCalls loginBlocked)"
      and "map_sum id inputText (enterKeyHandler followEnv loginBlocked) = Inr []"
      using b(2) enterKeyHandler_active [OF b(1), of followEnv "getCommand followEnv"]
      by blast+
    then show ?thesis by (simp add: b(3))
  qed
  show ?thesis using h b one two by blast
qed

text \<open>
  C3 as stated fails while the keys are blocked: the line \<open>bob\<close> submitted during the
  session \<open>login\<close> reaches no step handler and aborts nothing; the input is cleared and the
  line is lost.
\<close>

theorem enterKeyHandler_blocked_drops_line:
  "helper_command loginBlocked = Some ''login'' \<and> inputText loginBlocked = ''bob''
   \<and> map_sum id stepCalls (enterKeyHandler followEnv loginBlocked) = Inr []
   \<and> map_sum id abortCalls (enterKeyHandler followEnv loginBlocked) = Inr []
   \<and> map_sum id helper_command (enterKeyHandler followEnv loginBlocked) = Inr (Some ''login'')
   \<and> map_sum id inputText (enterKeyHandler followEnv loginBlocked) = Inr []"
  by (simp add: enterKeyHandler_def loginBlocked_def initialFeed_def clearModeText_def
      clearInput_def resetPreviousCommandPointer_def Let_def)

text \<open>
  C9, as the code has it. A line is submitted at top level, its first word is not empty and
  the registry does not know it. With the keys not blocked: for a registered user outside
  chat mode the failure message is displayed, the command queue, the dispatcher and the
  session are unchanged, and the line, its pieces joined by single spaces, is appended to
  the history; for a registered user in chat mode, a word that begins with a command
  character gives the failure message and changes neither queue, session nor history, and
  any other word makes the line a chat message for the command queue when the command
  \<open>msg\<close> is registered, with the history and the session unchanged; with nobody logged in the line and the registration notice are
  displayed and queue, session and history are unchanged. With the keys blocked nothing is
  displayed and queue, session and history are unchanged.
\<close>

theorem enterKeyHandler_unknown_command:
  assumes "helper_command s = None"
    and "firstPhrase (split_space (trimSpace e (inputText s))) \<noteq> []"
    and "getCommand e (toLowerCase e (firstPhrase (split_space (trimSpace e (inputText s))))) = None"
  shows "(\<not> keysBlocked s \<and> user s \<noteq> None \<and> mode s \<noteq> ''chat'' \<longrightarrow>
          (case enterKeyHandler e s of
            Inl err \<Rightarrow> False
          | Inr s' \<Rightarrow>
              messages s' = messages s
                @ [[''- '' @ firstPhrase (split_space (trimSpace e (inputText s))) @ '': '' @ commandFail e]]
              \<and> commandQueue s' = commandQueue s \<and> commmandUsed s' = commmandUsed s
              \<and> pendingTimers s' = pendingTimers s \<and> triggered s' = triggered s
              \<and> helper_command s' = None \<and> onStep s' = onStep s \<and> stepCalls s' = stepCalls s
              \<and> commandHistory s' =
                  commandHistory s @ [join '' '' (split_space (trimSpace e (inputText s)))]
              \<and> previousCommandPointer s' = int (length (commandHistory s)) + 1))
       \<and> (\<not> keysBlocked s \<and> user s \<noteq> None \<and> mode s = ''chat''
            \<and> charAt (firstPhrase (split_space (trimSpace e (inputText s)))) 0 \<in> set (commandChars e) \<longrightarrow>
          (case enterKeyHandler e s of
            Inl err \<Rightarrow> False
          | Inr s' \<Rightarrow>
              messages s' = messages s
                @ [[firstPhrase (split_space (trimSpace e (inputText s))) @ '': '' @ commandFail e]]
              \<and> commandQueue s' = commandQueue s \<and> commmandUsed s' = commmandUsed s
              \<and> pendingTimers s' = pendingTimers s \<and> triggered s' = triggered s
              \<and> helper_command s' = None \<and> onStep s' = onStep s \<and> stepCalls s' = stepCalls s
              \<and> commandHistory s' = commandHistory s
              \<and> previousCommandPointer s' = int (length (commandHistory s))))
       \<and> (\<not> keysBlocked s \<and> user s \<noteq> None \<and> mode s = ''chat''
            \<and> charAt (firstPhrase (split_space (trimSpace e (inputText s)))) 0 \<notin> set (commandChars e) \<longrightarrow>
          enterKeyHandler e s =
            (case getCommand e ''msg'' of
               None \<Rightarrow> Inl TypeError
             | Some m \<Rightarrow>
                 Inr (clearModeText (clearInput (resetPreviousCommandPointer
                   (startCommandQueue (queueCommand (CmdFunc ''msg'')
                      (split_space (trimSpace e (inputText s))) None (s\<lparr>keyPressed := True\<rparr>)))))))
          \<and> (getCommand e ''msg'' \<noteq> None \<longrightarrow>
               map_sum id commandHistory (enterKeyHandler e s) = Inr (commandHistory s)
               \<and> map_sum id helper_command (enterKeyHandler e s) = Inr None
               \<and> map_sum id onStep (enterKeyHandler e s) = Inr (onStep s)
               \<and> map_sum id stepCalls (enterKeyHandler e s) = Inr (stepCalls s)))
       \<and> (\<not> keysBlocked s \<and> user s = None \<longrightarrow>
          (case enterKeyHandler e s of
            Inl err \<Rightarrow> False
          | Inr s' \<Rightarrow>
              messages s' = messages s
                @ [[join '','' (split_space (trimSpace e (inputText s)))], mustRegister e]
              \<and> commandQueue s' = commandQueue s \<and> commmandUsed s' = commmandUsed s
              \<and> pendingTimers s' = pendingTimers s \<and> triggered s' = triggered s
              \<and> helper_command s' = None \<and> onStep s' = onStep s \<and> stepCalls s' = stepCalls s
              \<and> commandHistory s' = commandHistory s
              \<and> previousCommandPointer s' = int (length (commandHistory s))))
       \<and> (keysBlocked s \<longrightarrow>
          enterKeyHandler e s =
            Inr (clearModeText (clearInput (resetPreviousCommandPointer (s\<lparr>keyPressed := True\<rparr>))))
          \<and> map_sum id messages (enterKeyHandler e s) = Inr (messages s)
          \<and> map_sum id commandQueue (enterKeyHandler e s) = Inr (commandQueue s)
          \<and> map_sum id helper_command (enterKeyHandler e s) = Inr None
          \<and> map_sum id commandHistory (enterKeyHandler e s) = Inr (commandHistory s))"
proof -
  note defs = enterKeyHandler_def enterTopLevel_def queueMessage_def pushCommandHistory_def
      clearModeText_def clearInput_def resetPreviousCommandPointer_def Let_def
  have a: "\<not> keysBlocked s \<and> user s \<noteq> None \<and> mode s \<noteq> ''chat'' \<longrightarrow>
          (case enterKeyHandler e s of
            Inl err \<Rightarrow> False
          | Inr s' \<Rightarrow>
              messages s' = messages s
                @ [[''- '' @ firstPhrase (split_space (trimSpace e (inputText s))) @ '': '' @ commandFail e]]
              \<and> commandQueue s' = commandQueue s \<and> commmandUsed s' = commmandUsed s
              \<and> pendingTimers s' = pendingTimers s \<and> triggered s' = triggered s
              \<and> helper_command s' = None \<and> onStep s' = onStep s \<and> stepCalls s' = stepCalls s
              \<and> commandHistory s' =
                  commandHistory s @ [join '' '' (split_space (trimSpace e (inputText s)))]
              \<and> previousCommandPointer s' = int (length (commandHistory s)) + 1)"
    using assms by (simp add: defs)
  have b: "\<not> keysBlocked s \<and> user s \<noteq> None \<and> mode s = ''chat''
            \<and> charAt (firstPhrase (split_space (trimSpace e (inputText s)))) 0 \<in> set (commandChars e) \<longrightarrow>
          (case enterKeyHandler e s of
            Inl err \<Rightarrow> False
          | Inr s' \<Rightarrow>
              messages s' = messages s
                @ [[firstPhrase (split_space (trimSpace e (inputText s))) @ '': '' @ commandFail e]]
              \<and> commandQueue s' = commandQueue s \<and> commmandUsed s' = commmandUsed s
              \<and> pendingTimers s' = pendingTimers s \<and> triggered s' = triggered s
              \<and> helper_command s' = None \<and> onStep s' = onStep s \<and> stepCalls s' = stepCalls s
              \<and> commandHistory s' = commandHistory s
              \<and> previousCommandPointer s' = int (length (commandHistory s)))"
    using assms by (simp add: defs)
  have c: "\<not> keysBlocked s \<and> user s \<noteq> None \<and> mode s = ''chat''
            \<and> charAt (firstPhrase (split_space (trimSpace e (inputText s)))) 0 \<notin> set (commandChars e) \<longrightarrow>
          enterKeyHandler e s =
            (case getCommand e ''msg'' of
               None \<Rightarrow> Inl TypeError
             | Some m \<Rightarrow>
                 Inr (clearModeText (clearInput (resetPreviousCommandPointer
                   (startCommandQueue (queueCommand (CmdFunc ''msg'')
                      (split_space (trimSpace e (inputText s))) None (s\<lparr>keyPressed := True\<rparr>)))))))
          \<and> (getCommand e ''msg'' \<noteq> None \<longrightarrow>
               map_sum id commandHistory (enterKeyHandler e s) = Inr (commandHistory s)
               \<and> map_sum id helper_command (enterKeyHandler e s) = Inr None
               \<and> map_sum id onStep (enterKeyHandler e s) = Inr (onStep s)
               \<and> map_sum id stepCalls (enterKeyHandler e s) = Inr (stepCalls s))"
    using assms
    by (auto simp add: defs startCommandQueue_def consumeCommandQueue_def queueCommand_def
        setCommandUsed_def triggerCommand_def split: option.splits list.splits)
  have d: "\<not> keysBlocked s \<and> user s = None \<longrightarrow>
          (case enterKeyHandler e s of
            Inl err \<Rightarrow> False
          | Inr s' \<Rightarrow>
              messages s' = messages s
                @ [[join '','' (split_space (trimSpace e (inputText s)))], mustRegister e]
              \<and> commandQueue s' = commandQueue s \<and> commmandUsed s' = commmandUsed s
              \<and> pendingTimers s' = pendingTimers s \<and> triggered s' = triggered s
              \<and> helper_command s' = None \<and> onStep s' = onStep s \<and> stepCalls s' = stepCalls s
              \<and> commandHistory s' = commandHistory s
              \<and> previousCommandPointer s' = int (length (commandHistory s)))"
    using assms by (simp add: defs)
  have f: "keysBlocked s \<longrightarrow>
          enterKeyHandler e s =
            Inr (clearModeText (clearInput (resetPreviousCommandPointer (s\<lparr>keyPressed := True\<rparr>))))
          \<and> map_sum id messages (enterKeyHandler e s) = Inr (messages s)
          \<and> map_sum id commandQueue (enterKeyHandler e s) = Inr (commandQueue s)
          \<and> map_sum id helper_command (enterKeyHandler e s) = Inr None
          \<and> map_sum id commandHistory (enterKeyHandler e s) = Inr (commandHistory s)"
    using assms by (simp add: defs)
  show ?thesis
    using a b c d f by blast
qed

theorem enterKeyHandler_unknown_command_witness:
  "helper_command unknownInput = None
   \<and> firstPhrase (split_space (trimSpace followEnv (inputText unknownInput))) \<noteq> []
   \<and> getCommand followEnv (toLowerCase followEnv
        (firstPhrase (split_space (trimSpace followEnv (inputText unknownInput))))) = None
   \<and> \<not> keysBlocked unknownInput \<and> user unknownInput \<noteq> None \<and> mode unknownInput \<noteq> ''chat''
   \<and> map_sum id messages (enterKeyHandler followEnv unknownInput) = Inr [[''- foo: command not found'']]
   \<and> map_sum id commandHistory (enterKeyHandler followEnv unknownInput) = Inr [''foo bar'']
   \<and> mode chatDashInput = ''chat''
   \<and> charAt (firstPhrase (split_space (trimSpace followEnv (inputText chatDashInput)))) 0
        \<in> set (commandChars followEnv)
   \<and> map_sum id messages (enterKeyHandler followEnv chatDashInput) = Inr [[''-foo: command not found'']]
   \<and> map_sum id commandHistory (enterKeyHandler followEnv chatDashInput) = Inr []
   \<and> charAt (firstPhrase (split_space (trimSpace chatEnv (inputText chatLineInput)))) 0
        \<notin> set (commandChars chatEnv)
   \<and> getCommand chatEnv ''msg'' \<noteq> None
   \<and> map_sum id commandHistory (enterKeyHandler chatEnv chatLineInput) = Inr []
   \<and> user anonymousInput = None
   \<and> map_sum id messages (enterKeyHandler followEnv anonymousInput)
       = Inr [[''foo,bar''], [''You must register'']]
   \<and> map_sum id commandHistory (enterKeyHandler followEnv anonymousInput) = Inr []
   \<and> keysBlocked unknownBlocked
   \<and> map_sum id messages (enterKeyHandler followEnv unknownBlocked) = Inr []
   \<and> map_sum id commandHistory (enterKeyHandler followEnv unknownBlocked) = Inr []"
proof -
  have u: "helper_command unknownInput = None"
      "firstPhrase (split_space (trimSpace followEnv (inputText unknownInput))) \<noteq> []"
      "getCommand followEnv (toLowerCase followEnv
        (firstPhrase (split_space (trimSpace followEnv (inputText unknownInput))))) = None"
    by (simp_all add: unknownInput_def initialFeed_def followEnv_def trimBlanks_def firstPhrase_def)
  have u': "\<not> keysBlocked unknownInput \<and> user unknownInput \<noteq> None \<and> mode unknownInput \<noteq> ''chat''"
    by (simp add: unknownInput_def initialFeed_def)
  have uv: "messages unknownInput = []" "commandHistory unknownInput = []"
      "firstPhrase (split_space (trimSpace followEnv (inputText unknownInput))) = ''foo''"
      "join '' '' (split_space (trimSpace followEnv (inputText unknownInput))) = ''foo bar''"
      "commandFail followEnv = ''command not found''"
    by (simp_all add: unknownInput_def initialFeed_def followEnv_def trimBlanks_def firstPhrase_def)
  have one: "map_sum id messages (enterKeyHandler followEnv unknownInput) = Inr [[''- foo: command not found'']]
      \<and> map_sum id commandHistory (enterKeyHandler followEnv unknownInput) = Inr [''foo bar'']"
    using u' enterKeyHandler_unknown_command [OF u, THEN conjunct1]
    by (simp add: uv split: sum.splits)
  have c: "helper_command chatDashInput = None"
      "firstPhrase (split_space (trimSpace followEnv (inputText chatDashInput))) \<noteq> []"
      "getCommand followEnv (toLowerCase followEnv
        (firstPhrase (split_space (trimSpace followEnv (inputText chatDashInput))))) = None"
    by (simp_all add: chatDashInput_def initialFeed_def followEnv_def trimBlanks_def firstPhrase_def)
  have c': "\<not> keysBlocked chatDashInput \<and> user chatDashInput \<noteq> None \<and> mode chatDashInput = ''chat''
      \<and> charAt (firstPhrase (split_space (trimSpace followEnv (inputText chatDashInput)))) 0
        \<in> set (commandChars followEnv)"
    by (simp add: chatDashInput_def initialFeed_def followEnv_def trimBlanks_def firstPhrase_def
        charAt_def)
  have cv: "messages chatDashInput = []" "commandHistory chatDashInput = []"
      "firstPhrase (split_space (trimSpace followEnv (inputText chatDashInput))) = ''-foo''"
    by (simp_all add: chatDashInput_def initialFeed_def followEnv_def trimBlanks_def firstPhrase_def)
  have two: "map_sum id messages (enterKeyHandler followEnv chatDashInput) = Inr [[''-foo: command not found'']]
      \<and> map_sum id commandHistory (enterKeyHandler followEnv chatDashInput) = Inr []"
    using c' enterKeyHandler_unknown_command [OF c, THEN conjunct2, THEN conjunct1]
    by (simp add: cv uv(5) split: sum.splits)
  have l: "helper_command chatLineInput = None"
      "firstPhrase (split_space (trimSpace chatEnv (inputText chatLineInput))) \<noteq> []"
      "getCommand chatEnv (toLowerCase chatEnv
        (firstPhrase (split_space (trimSpace chatEnv (inputText chatLineInput))))) = None"
    by (simp_all add: chatLineInput_def initialFeed_def chatEnv_def followEnv_def trimBlanks_def
        firstPhrase_def)
  have l': "\<not> keysBlocked chatLineInput \<and> user chatLineInput \<noteq> None \<and> mode chatLineInput = ''chat''
      \<and> charAt (firstPhrase (split_space (trimSpace chatEnv (inputText chatLineInput)))) 0
        \<notin> set (commandChars chatEnv)"
    by (simp add: chatLineInput_def initialFeed_def chatEnv_def followEnv_def trimBlanks_def
        firstPhrase_def charAt_def)
  have lm: "getCommand chatEnv ''msg'' \<noteq> None"
    by (simp add: chatEnv_def)
  have lv: "commandHistory chatLineInput = []"
    by (simp add: chatLineInput_def initialFeed_def)
  have three: "map_sum id commandHistory (enterKeyHandler chatEnv chatLineInput) = Inr []"
  proof -
    have "map_sum id commandHistory (enterKeyHandler chatEnv chatLineInput)
          = Inr (commandHistory chatLineInput)"
      using l' lm enterKeyHandler_unknown_command
        [OF l, THEN conjunct2, THEN conjunct2, THEN conjunct1]
      by blast
    then show ?thesis by (simp add: lv)
  qed
  have n: "helper_command anonymousInput = None"
      "firstPhrase (split_space (trimSpace followEnv (inputText anonymousInput))) \<noteq> []"
      "getCommand followEnv (toLowerCase followEnv
        (firstPhrase (split_space (trimSpace followEnv (inputText anonymousInput))))) = None"
    by (simp_all add: anonymousInput_def initialFeed_def followEnv_def trimBlanks_def firstPhrase_def)
  have n': "\<not> keysBlocked anonymousInput \<and> user anonymousInput = None"
    by (simp add: anonymousInput_def initialFeed_def)
  have nv: "messages anonymousInput = []" "commandHistory anonymousInput = []"
      "join '','' (split_space (trimSpace followEnv (inputText anonymousInput))) = ''foo,bar''"
      "mustRegister followEnv = [''You must register'']"
    by (simp_all add: anonymousInput_def initialFeed_def followEnv_def trimBlanks_def)
  have four: "map_sum id messages (enterKeyHandler followEnv anonymousInput)
       = Inr [[''foo,bar''], [''You must register'']]
      \<and> map_sum id commandHistory (enterKeyHandler followEnv anonymousInput) = Inr []"
    using n' enterKeyHandler_unknown_command
      [OF n, THEN conjunct2, THEN conjunct2, THEN conjunct2, THEN conjunct1]
    by (simp add: nv split: sum.splits)
  have k: "helper_command unknownBlocked = None"
      "firstPhrase (split_space (trimSpace followEnv (inputText unknownBlocked))) \<noteq> []"
      "getCommand followEnv (toLowerCase followEnv
        (firstPhrase (split_space (trimSpace followEnv (inputText unknownBlocked))))) = None"
    by (simp_all add: unknownBlocked_def initialFeed_def followEnv_def trimBlanks_def firstPhrase_def)
  have k': "keysBlocked unknownBlocked"
    by (simp add: unknownBlocked_def initialFeed_def)
  have kv: "messages unknownBlocked = []" "commandHistory unknownBlocked = []"
    by (simp_all add: unknownBlocked_def initialFeed_def)
  have five: "map_sum id messages (enterKeyHandler followEnv unknownBlocked) = Inr []
      \<and> map_sum id commandHistory (enterKeyHandler followEnv unknownBlocked) = Inr []"
  proof -
    have "map_sum id messages (enterKeyHandler followEnv unknownBlocked) = Inr (messages unknownBlocked)"
      and "map_sum id commandHistory (enterKeyHandler followEnv unknownBlocked)
           = Inr (commandHistory unknownBlocked)"
      using k' enterKeyHandler_unknown_command
        [OF k, THEN conjunct2, THEN conjunct2, THEN conjunct2, THEN conjunct2]
      by blast+
    then show ?thesis by (simp add: kv)
  qed
  show ?thesis
    using u u' one c' two l' lm three n' four k' five by blast
qed

text \<open>
  C9 as stated fails: after the unknown command \<open>foo bar\<close> the history, empty before, holds
  the line.
\<close>

theorem enterKeyHandler_unknown_command_changes_history:
  "getCommand followEnv (toLowerCase followEnv ''foo'') = None
   \<and> commandHistory unknownInput = []
   \<and> map_sum id commandHistory (enterKeyHandler followEnv unknownInput) = Inr [''foo bar'']
   \<and> map_sum id messages (enterKeyHandler followEnv unknownInput) = Inr [[''- foo: command not found'']]"
  by (simp add: enterKeyHandler_def enterTopLevel_def queueMessage_def pushCommandHistory_def
      clearModeText_def clearInput_def resetPreviousCommandPointer_def Let_def
      unknownInput_def initialFeed_def followEnv_def trimBlanks_def firstPhrase_def)

section \<open>Properties of history navigation\<close>

lemma moveUp_log: "map_option commandHistory (moveUp s) = map_option (\<lambda>_. commandHistory s) (moveUp s)"
  by (simp add: moveUp_def specialKeyPress_up_def keyReleased_arrow_def clearInput_def
      setCommandInput_def Let_def option.map_comp comp_def)

lemma moveDown_log: "map_option commandHistory (moveDown s) = map_option (\<lambda>_. commandHistory s) (moveDown s)"
  by (simp add: moveDown_def specialKeyPress_down_def keyReleased_arrow_def clearInput_def
      setCommandInput_def Let_def option.map_comp comp_def)

lemma historyABC_fields:
  "historyABC = initialFeed\<lparr>commandHistory := [''a'', ''b'', ''c''], previousCommandPointer := 3\<rparr>"
  by (simp add: historyABC_def resetPreviousCommandPointer_def initialFeed_def)

lemma history_up_first: "moveUp historyABC = Some (historyABC\<lparr>inputText := ''c'', previousCommandPointer := 2\<rparr>)"
  by (simp add: historyABC_fields moveUp_def specialKeyPress_up_def keyReleased_arrow_def clearInput_def
      setCommandInput_def historyEntry_def initialFeed_def Let_def)

lemma history_up_second: "moveUp (historyABC\<lparr>inputText := ''c'', previousCommandPointer := 2\<rparr>)
    = Some (historyABC\<lparr>inputText := ''b'', previousCommandPointer := 1\<rparr>)"
  by (simp add: historyABC_fields moveUp_def specialKeyPress_up_def keyReleased_arrow_def clearInput_def
      setCommandInput_def historyEntry_def initialFeed_def Let_def)

lemma history_down_first: "moveDown (historyABC\<lparr>inputText := ''b'', previousCommandPointer := 1\<rparr>)
    = Some (historyABC\<lparr>inputText := ''c'', previousCommandPointer := 2\<rparr>)"
  by (simp add: historyABC_fields moveDown_def specialKeyPress_down_def keyReleased_arrow_def clearInput_def
      setCommandInput_def historyEntry_def initialFeed_def Let_def)

lemma history_down_second: "moveDown (historyABC\<lparr>inputText := ''c'', previousCommandPointer := 2\<rparr>)
    = Some (historyABC\<lparr>inputText := '''', previousCommandPointer := 3\<rparr>)"
  by (simp add: historyABC_fields moveDown_def specialKeyPress_down_def keyReleased_arrow_def clearInput_def
      setCommandInput_def historyEntry_def initialFeed_def Let_def)

lemma history_down_third: "moveDown (historyABC\<lparr>inputText := '''', previousCommandPointer := 3\<rparr>)
    = Some (historyABC\<lparr>inputText := '''', previousCommandPointer := 3\<rparr>)"
  by (simp add: historyABC_fields moveDown_def specialKeyPress_down_def keyReleased_arrow_def clearInput_def
      setCommandInput_def historyEntry_def initialFeed_def Let_def)

text \<open>
  C5. With the log \<open>a\<close>, \<open>b\<close>, \<open>c\<close> and the pointer reset to its length 3: up shows \<open>c\<close>
  with pointer 2, up again \<open>b\<close> with pointer 1, down \<open>c\<close> with pointer 2, down again an
  empty line with pointer 3, and a further down an empty line with the pointer still 3. In
  any state, whenever an arrow key gives a state, the log in it is the log before.
\<close>

theorem history_navigation:
  "previousCommandPointer historyABC = 3 \<and> commandHistory historyABC = [''a'', ''b'', ''c'']
   \<and> map_option historyView (moveUp historyABC) = Some (''c'', 2, [''a'', ''b'', ''c''])
   \<and> map_option historyView (Option.bind (moveUp historyABC) moveUp)
       = Some (''b'', 1, [''a'', ''b'', ''c''])
   \<and> map_option historyView (Option.bind (Option.bind (moveUp historyABC) moveUp) moveDown)
       = Some (''c'', 2, [''a'', ''b'', ''c''])
   \<and> map_option historyView
        (Option.bind (Option.bind (Option.bind (moveUp historyABC) moveUp) moveDown) moveDown)
       = Some ('''', 3, [''a'', ''b'', ''c''])
   \<and> map_option historyView
        (Option.bind (Option.bind (Option.bind (Option.bind (moveUp historyABC) moveUp) moveDown)
           moveDown) moveDown)
       = Some ('''', 3, [''a'', ''b'', ''c''])
   \<and> map_option commandHistory (moveUp s) = map_option (\<lambda>_. commandHistory s) (moveUp s)
   \<and> map_option commandHistory (moveDown s) = map_option (\<lambda>_. commandHistory s) (moveDown s)"
proof -
  have f: "previousCommandPointer historyABC = 3" "commandHistory historyABC = [''a'', ''b'', ''c'']"
    by (simp_all add: historyABC_fields)
  show ?thesis
    by (simp add: history_up_first history_up_second history_down_first
        history_down_second history_down_third moveUp_log moveDown_log historyView_def f)
qed

section \<open>Properties of autocompletion\<close>

lemma expand_follow:
  "expandFrom e [''follow'', ''followpublic''] ''follow'' ''fo'' sign (length ''fo'') [] = []"
  by (subst expandFrom.simps, simp add: charAt_def Let_def)+

lemma expand_follow_reversed:
  "expandFrom followEnv [''followpublic'', ''follow''] ''followpublic'' ''fo'' ''f'' (length ''fo'') []
     = ''follow''"
  by (subst expandFrom.simps, simp add: charAt_def followEnv_def Let_def)+

lemma expandPartialMatch_follow:
  "expandPartialMatch e [''follow'', ''followpublic''] ''fo'' sign = Inr []"
  by (simp only: expandPartialMatch_def list.case expand_follow)

text \<open>
  C4. With the matches \<open>follow\<close> and \<open>followpublic\<close>, in that order, and the partial \<open>fo\<close>,
  the loop of \<open>expandPartialMatch\<close> collects \<open>llow\<close>, runs off the end of \<open>follow\<close> without
  meeting a difference and returns the empty string, for any command character: the input
  is set to the empty string, and the list \<open>follow - followpublic\<close> is displayed. With the
  matches in the other order the same function returns \<open>follow\<close>.
\<close>

theorem autoComplete_follow_wipes_input:
  "expandPartialMatch e [''follow'', ''followpublic''] ''fo'' sign = Inr ''''
   \<and> matchedCommands followEnv followTyped ''fo'' = [''follow'', ''followpublic'']
   \<and> autoCompleteCommand followEnv [''fo''] followTyped =
       Inr (followTyped\<lparr>inputText := '''', messages := [[''follow - followpublic'']]\<rparr>)
   \<and> expandPartialMatch followEnv [''followpublic'', ''follow''] ''fo'' ''f'' = Inr ''follow''"
proof -
  have a: "expandPartialMatch e [''follow'', ''followpublic''] ''fo'' sign = Inr ''''"
    by (rule expandPartialMatch_follow)
  have b: "matchedCommands followEnv followTyped ''fo'' = [''follow'', ''followpublic'']"
    by (simp add: matchedCommands_def commandAllowed_def hasAccess_def followEnv_def
        followTyped_def initialFeed_def)
  have c: "autoCompleteCommand followEnv [''fo''] followTyped =
       Inr (followTyped\<lparr>inputText := '''', messages := [[''follow - followpublic'']]\<rparr>)"
  proof -
    have g: "isCommandChar followEnv (charAt ''fo'' 0) = False" "mode followTyped = ''cmd''"
        "trimSpace followEnv [] = []" "messages followTyped = []"
      by (simp_all add: followEnv_def charAt_def followTyped_def initialFeed_def trimBlanks_def)
    show ?thesis
      by (simp add: autoCompleteCommand_def g b expandPartialMatch_follow queueMessage_def
          setCommandInput_def Let_def)
  qed
  have d: "expandPartialMatch followEnv [''followpublic'', ''follow''] ''fo'' ''f'' = Inr ''follow''"
    by (simp only: expandPartialMatch_def list.case expand_follow_reversed)
  show ?thesis using a b c d by simp
qed

lemma autoCompleteCommand_none:
  assumes "matchedCommands e s (if isCommandChar e (charAt p0 0) then drop 1 p0 else p0) = []"
  shows "autoCompleteCommand e (p0 # ps) s = Inr s"
  using assms by (simp add: autoCompleteCommand_def Let_def)

lemma phraseAt_last:
  "phrases \<noteq> [] \<Longrightarrow> phraseAt phrases (int (length phrases) - 1) = Some (last phrases)"
  by (cases phrases rule: rev_cases) (simp_all add: phraseAt_def nth_append)

lemma autoCompleteOption_next_none:
  assumes "phrases \<noteq> []" "nextOptions options phrases = Some nxt"
    and "matchItems (last phrases) (map fst nxt) False = []"
  shows "autoCompleteOption e phrases options s =
           Inr (if nxt \<noteq> [] then queueMessage [join '' - '' (map fst nxt)] s else s)"
  using assms
  by (simp add: autoCompleteOption_def phraseAt_last match_def Let_def)

lemma autoCompleteOption_first_none:
  assumes "phrases \<noteq> []" "nextOptions options phrases = None"
    and "matchItems (last phrases) (map fst options) False = []"
  shows "autoCompleteOption e phrases options s =
           Inr (if length phrases \<le> 2 \<and> last phrases = []
                then queueMessage [join '' - '' (map fst options)] s else s)"
  using assms
  by (simp add: autoCompleteOption_def phraseAt_last match_def Let_def)

text \<open>
  C8, as the code has it. When no command name matches, \<open>autoCompleteCommand\<close> returns the
  state as it was. When no key of the option level matches, \<open>autoCompleteOption\<close> raises no
  error and leaves the input text as it was; it displays the whole list of keys of the next
  level when the option typed has a non-empty one, and at first level the whole list of
  options when at most two phrases are typed and the partial is empty; otherwise it
  displays nothing.
\<close>

theorem autoComplete_zero_matches:
  "(matchedCommands e s (if isCommandChar e (charAt p0 0) then drop 1 p0 else p0) = [] \<longrightarrow>
      autoCompleteCommand e (p0 # ps) s = Inr s)
   \<and> (phrases \<noteq> [] \<and> nextOptions options phrases = Some nxt
       \<and> matchItems (last phrases) (map fst nxt) False = [] \<longrightarrow>
      map_sum id inputText (autoCompleteOption e phrases options s) = Inr (inputText s)
      \<and> map_sum id messages (autoCompleteOption e phrases options s) =
          Inr (messages s @ (if nxt \<noteq> [] then [[join '' - '' (map fst nxt)]] else [])))
   \<and> (phrases \<noteq> [] \<and> nextOptions options phrases = None
       \<and> matchItems (last phrases) (map fst options) False = [] \<longrightarrow>
      map_sum id inputText (autoCompleteOption e phrases options s) = Inr (inputText s)
      \<and> map_sum id messages (autoCompleteOption e phrases options s) =
          Inr (messages s @ (if length phrases \<le> 2 \<and> last phrases = []
                             then [[join '' - '' (map fst options)]] else [])))"
  by (simp add: autoCompleteCommand_none autoCompleteOption_next_none
      autoCompleteOption_first_none queueMessage_def)

theorem autoComplete_zero_matches_witness:
  "matchedCommands followEnv followTyped
      (if isCommandChar followEnv (charAt ''xy'' 0) then drop 1 ''xy'' else ''xy'') = []
   \<and> autoCompleteCommand followEnv [''xy''] followTyped = Inr followTyped
   \<and> [''cmd'', ''opt'', ''zz''] \<noteq> [] \<and> nextOptions optionTree [''cmd'', ''opt'', ''zz''] =
        Some [(''a'', OptionNode None), (''b'', OptionNode None)]
   \<and> matchItems (last [''cmd'', ''opt'', ''zz''])
        (map fst [(''a'', OptionNode None), (''b'', OptionNode None)]) False = []
   \<and> map_sum id inputText (autoCompleteOption followEnv [''cmd'', ''opt'', ''zz''] optionTree optionTyped)
       = Inr ''cmd opt zz''
   \<and> [''cmd'', ''zz''] \<noteq> [] \<and> nextOptions optionTree [''cmd'', ''zz''] = None
   \<and> matchItems (last [''cmd'', ''zz'']) (map fst optionTree) False = []
   \<and> map_sum id messages (autoCompleteOption followEnv [''cmd'', ''zz''] optionTree optionTyped)
       = Inr []"
proof -
  have h1: "matchedCommands followEnv followTyped
      (if isCommandChar followEnv (charAt ''xy'' 0) then drop 1 ''xy'' else ''xy'') = []"
    by (simp add: matchedCommands_def followEnv_def charAt_def)
  have h2: "[''cmd'', ''opt'', ''zz''] \<noteq> [] \<and> nextOptions optionTree [''cmd'', ''opt'', ''zz''] =
        Some [(''a'', OptionNode None), (''b'', OptionNode None)]
      \<and> matchItems (last [''cmd'', ''opt'', ''zz''])
        (map fst [(''a'', OptionNode None), (''b'', OptionNode None)]) False = []"
    by (simp add: nextOptions_def optionTree_def phraseAt_def propertyKey_def)
  have h3: "[''cmd'', ''zz''] \<noteq> [] \<and> nextOptions optionTree [''cmd'', ''zz''] = None
      \<and> matchItems (last [''cmd'', ''zz'']) (map fst optionTree) False = []"
    by (simp add: nextOptions_def optionTree_def phraseAt_def propertyKey_def)
  have v: "inputText optionTyped = ''cmd opt zz''" "messages optionTyped = []"
    by (simp_all add: optionTyped_def initialFeed_def)
  show ?thesis
    using h1 h2 h3
      autoComplete_zero_matches [where e = followEnv and s = followTyped and ?p0.0 = "''xy''"
        and ps = "[]" and phrases = "[''cmd'', ''opt'', ''zz'']" and options = optionTree
        and nxt = "[(''a'', OptionNode None), (''b'', OptionNode None)]"]
      autoComplete_zero_matches [where e = followEnv and s = optionTyped and ?p0.0 = "''xy''"
        and ps = "[]" and phrases = "[''cmd'', ''opt'', ''zz'']" and options = optionTree
        and nxt = "[(''a'', OptionNode None), (''b'', OptionNode None)]"]
      autoComplete_zero_matches [where e = followEnv and s = optionTyped and ?p0.0 = "''xy''"
        and ps = "[]" and phrases = "[''cmd'', ''zz'']" and options = optionTree]
    by (simp add: v)
qed

text \<open>
  C8 as stated fails: \<open>zz\<close> matches none of the keys \<open>a\<close>, \<open>b\<close> below \<open>opt\<close>, and the list
  \<open>a - b\<close> is displayed.
\<close>

theorem autoCompleteOption_no_match_displays_keys:
  "match (Some ''zz'') [''a'', ''b''] = Inr []
   \<and> nextOptions optionTree [''cmd'', ''opt'', ''zz''] =
        Some [(''a'', OptionNode None), (''b'', OptionNode None)]
   \<and> messages optionTyped = []
   \<and> map_sum id messages (autoCompleteOption followEnv [''cmd'', ''opt'', ''zz''] optionTree optionTyped)
       = Inr [[''a - b'']]"
  by (simp add: autoCompleteOption_def match_def nextOptions_def optionTree_def phraseAt_def
      propertyKey_def queueMessage_def optionTyped_def initialFeed_def Let_def)

end
